theory Spec2Isabelle
  imports Complex_Main
begin

section \<open>Floating-point values\<close>

text \<open>
  The notebook computes with IEEE floats. Finite floats are idealised as reals (rounding
  and overflow are left out); the three special values are kept, because the division of
  the return normalisation can produce them. Signed zeros are not distinguished. What the
  rounding of the floats does to a result, and so any bound on a rounding error, is
  outside this theory.
\<close>

datatype npfloat = Fin real | PInf | NInf | NaN

fun fneg :: "npfloat \<Rightarrow> npfloat" where
  "fneg (Fin a) = Fin (- a)"
| "fneg PInf = NInf"
| "fneg NInf = PInf"
| "fneg NaN = NaN"

fun fadd :: "npfloat \<Rightarrow> npfloat \<Rightarrow> npfloat" where
  "fadd (Fin a) (Fin b) = Fin (a + b)"
| "fadd NaN _ = NaN"
| "fadd _ NaN = NaN"
| "fadd PInf NInf = NaN"
| "fadd NInf PInf = NaN"
| "fadd PInf _ = PInf"
| "fadd _ PInf = PInf"
| "fadd NInf _ = NInf"
| "fadd _ NInf = NInf"

definition fsub :: "npfloat \<Rightarrow> npfloat \<Rightarrow> npfloat" where
  "fsub x y = fadd x (fneg y)"

definition inf_of_sign :: "bool \<Rightarrow> npfloat" where
  "inf_of_sign positive = (if positive then PInf else NInf)"

fun fmul :: "npfloat \<Rightarrow> npfloat \<Rightarrow> npfloat" where
  "fmul (Fin a) (Fin b) = Fin (a * b)"
| "fmul NaN _ = NaN"
| "fmul _ NaN = NaN"
| "fmul (Fin a) PInf = (if a = 0 then NaN else inf_of_sign (0 < a))"
| "fmul (Fin a) NInf = (if a = 0 then NaN else inf_of_sign (a < 0))"
| "fmul PInf (Fin b) = (if b = 0 then NaN else inf_of_sign (0 < b))"
| "fmul NInf (Fin b) = (if b = 0 then NaN else inf_of_sign (b < 0))"
| "fmul PInf PInf = PInf"
| "fmul NInf NInf = PInf"
| "fmul PInf NInf = NInf"
| "fmul NInf PInf = NInf"

fun fdiv :: "npfloat \<Rightarrow> npfloat \<Rightarrow> npfloat" where
  "fdiv (Fin a) (Fin b) =
     (if b = 0 then (if a = 0 then NaN else inf_of_sign (0 < a)) else Fin (a / b))"
| "fdiv NaN _ = NaN"
| "fdiv _ NaN = NaN"
| "fdiv (Fin a) PInf = Fin 0"
| "fdiv (Fin a) NInf = Fin 0"
| "fdiv PInf (Fin b) = inf_of_sign (0 \<le> b)"
| "fdiv NInf (Fin b) = inf_of_sign (b < 0)"
| "fdiv PInf PInf = NaN"
| "fdiv PInf NInf = NaN"
| "fdiv NInf PInf = NaN"
| "fdiv NInf NInf = NaN"

fun fabs :: "npfloat \<Rightarrow> npfloat" where
  "fabs (Fin a) = Fin \<bar>a\<bar>"
| "fabs PInf = PInf"
| "fabs NInf = PInf"
| "fabs NaN = NaN"

fun fsqrt :: "npfloat \<Rightarrow> npfloat" where
  "fsqrt (Fin a) = (if a < 0 then NaN else Fin (sqrt a))"
| "fsqrt PInf = PInf"
| "fsqrt NInf = NaN"
| "fsqrt NaN = NaN"

section \<open>Array reductions of numpy\<close>

text \<open>
  \<open>np.array(xs)\<close> of a list of Python floats, \<open>arr.mean()\<close> and \<open>arr.std()\<close>
  (population standard deviation, \<open>ddof = 0\<close>: the square root of the mean of
  \<open>abs(x - x.mean())**2\<close>). The mean of the empty array is \<open>0 / 0\<close>.
\<close>

definition np_array :: "real list \<Rightarrow> npfloat list" where
  "np_array xs = map Fin xs"

definition np_sum :: "npfloat list \<Rightarrow> npfloat" where
  "np_sum xs = foldl fadd (Fin 0) xs"

definition np_mean :: "npfloat list \<Rightarrow> npfloat" where
  "np_mean xs = fdiv (np_sum xs) (Fin (real (length xs)))"

definition np_std :: "npfloat list \<Rightarrow> npfloat" where
  "np_std xs =
     (let arrmean = np_mean xs;
          x = map (\<lambda>v. fabs (fsub v arrmean)) xs
      in fsqrt (np_mean (map (\<lambda>v. fmul v v) x)))"

section \<open>compute\_returns\<close>

text \<open>
  The loop of \<open>compute_returns\<close>: \<open>step\<close> runs over \<open>reversed(range(len(rewards)))\<close>,
  the state is the pair of \<open>R\<close> and the list \<open>returns\<close>, and \<open>returns.insert(0, R)\<close>
  puts the new value in front.
\<close>

definition returns_step :: "real list \<Rightarrow> real \<Rightarrow> nat \<Rightarrow> real \<times> real list \<Rightarrow> real \<times> real list" where
  "returns_step rewards gamma step st =
     (case st of (R, returns) \<Rightarrow>
        let R' = rewards ! step + gamma * R in (R', R' # returns))"

definition discounted_returns :: "real list \<Rightarrow> real \<Rightarrow> real list" where
  "discounted_returns rewards gamma =
     snd (fold (returns_step rewards gamma) (rev [0..<length rewards]) (0, []))"

text \<open>
  The normalisation: \<open>returns -= returns.mean()\<close> and then \<open>returns /= returns.std()\<close>,
  each on the whole array, the standard deviation taken of the centred array.
\<close>

definition normalize_array :: "npfloat list \<Rightarrow> npfloat list" where
  "normalize_array arr =
     (let m = np_mean arr;
          centred = map (\<lambda>v. fsub v m) arr;
          s = np_std centred
      in map (\<lambda>v. fdiv v s) centred)"

definition compute_returns :: "real list \<Rightarrow> real \<Rightarrow> npfloat list" where
  "compute_returns rewards gamma = normalize_array (np_array (discounted_returns rewards gamma))"


section \<open>The policy and value network\<close>

text \<open>
  A tensor of shape \<open>[n]\<close> is a list of length \<open>n\<close>. \<open>nn.Linear(in, out)\<close> holds a
  weight matrix (row \<open>j\<close>, column \<open>i\<close>) and a bias vector; their initial values are drawn at
  random by the library and are parameters here. Applying the layer to a vector whose
  length is not \<open>in_features\<close> raises a \<open>RuntimeError\<close> (size mismatch).
\<close>

datatype error = ShapeMismatch | IndexOutOfRange | TypeError

record linear =
  in_features :: nat
  out_features :: nat
  weight :: "nat \<Rightarrow> nat \<Rightarrow> real"
  bias :: "nat \<Rightarrow> real"

type_synonym layer_init = "(nat \<Rightarrow> nat \<Rightarrow> real) \<times> (nat \<Rightarrow> real)"

definition Linear :: "nat \<Rightarrow> nat \<Rightarrow> layer_init \<Rightarrow> linear" where
  "Linear n_in n_out init =
     \<lparr>in_features = n_in, out_features = n_out, weight = fst init, bias = snd init\<rparr>"

definition linear_apply :: "linear \<Rightarrow> real list \<Rightarrow> error + real list" where
  "linear_apply l x =
     (if length x \<noteq> in_features l then Inl ShapeMismatch
      else Inr (map (\<lambda>j. sum_list (map (\<lambda>i. weight l j i * x ! i) [0..<in_features l]) + bias l j)
                  [0..<out_features l]))"

definition relu :: "real list \<Rightarrow> real list" where
  "relu x = map (max 0) x"

record net =
  fc_shared :: linear
  fc_policy :: linear
  fc_value_function :: linear

text \<open>\<open>Net.__init__\<close>: the value head is \<open>nn.Linear(128, 1)\<close> whatever \<open>h_size\<close> is.\<close>

definition Net_init :: "nat \<Rightarrow> nat \<Rightarrow> nat \<Rightarrow> layer_init \<times> layer_init \<times> layer_init \<Rightarrow> net" where
  "Net_init s_size h_size a_size init =
     (case init of (i_shared, i_policy, i_value) \<Rightarrow>
        \<lparr>fc_shared = Linear s_size h_size i_shared,
         fc_policy = Linear h_size a_size i_policy,
         fc_value_function = Linear 128 1 i_value\<rparr>)"

text \<open>\<open>Net()\<close> with the default arguments \<open>s_size=8, h_size=128, a_size=4\<close>.\<close>

definition Net_default :: "layer_init \<times> layer_init \<times> layer_init \<Rightarrow> net" where
  "Net_default init = Net_init 8 128 4 init"

text \<open>
  \<open>torch.distributions.Categorical(logits=l)\<close> stores the normalised logits
  \<open>l - logsumexp(l)\<close>; \<open>probs\<close> are their exponentials; \<open>log_prob(a)\<close> reads the
  normalised logit of category \<open>a\<close>. \<open>sample()\<close> draws a category index at random: it is
  modelled by inversion of the cumulative probabilities at a uniform draw \<open>u\<close>, so that
  the outcome is always an index below the number of categories.
\<close>

record categorical =
  logits :: "real list"

definition logsumexp :: "real list \<Rightarrow> real" where
  "logsumexp l = ln (sum_list (map exp l))"

definition Categorical :: "real list \<Rightarrow> categorical" where
  "Categorical l = \<lparr>logits = map (\<lambda>v. v - logsumexp l) l\<rparr>"

definition probs :: "categorical \<Rightarrow> real list" where
  "probs d = map exp (logits d)"

definition num_events :: "categorical \<Rightarrow> nat" where
  "num_events d = length (logits d)"

definition cumsum :: "real list \<Rightarrow> real list" where
  "cumsum ps = map (\<lambda>k. sum_list (take (Suc k) ps)) [0..<length ps]"

definition sample :: "categorical \<Rightarrow> real \<Rightarrow> nat" where
  "sample d u = min (length (takeWhile (\<lambda>c. c \<le> u) (cumsum (probs d)))) (num_events d - 1)"

definition log_prob :: "categorical \<Rightarrow> nat \<Rightarrow> error + real" where
  "log_prob d a = (if a < num_events d then Inr (logits d ! a) else Inl IndexOutOfRange)"

text \<open>
  \<open>Net.forward\<close>. The policy head is applied and its result \<open>logits\<close> is bound, but the
  distribution is built by \<open>Categorical(logits=value)\<close>.
\<close>

definition forward :: "net \<Rightarrow> real list \<Rightarrow> error + (categorical \<times> real list)" where
  "forward n x =
     (case linear_apply (fc_shared n) x of
        Inl e \<Rightarrow> Inl e
      | Inr h \<Rightarrow>
          let x1 = relu h in
          (case linear_apply (fc_policy n) x1 of
             Inl e \<Rightarrow> Inl e
           | Inr policy_logits \<Rightarrow>
               (case linear_apply (fc_value_function n) x1 of
                  Inl e \<Rightarrow> Inl e
                | Inr value \<Rightarrow> Inr (Categorical value, value))))"

section \<open>The training loop\<close>

text \<open>
  The hyperparameters of the notebook that the trainer reads: the globals \<open>gamma\<close>
  (here \<open>hyper_gamma\<close>, apart from the parameter of \<open>compute_returns\<close>) and
  \<open>number_episodes\<close>.
\<close>

definition hyper_gamma :: real where
  "hyper_gamma = 99 / 100"

definition number_episodes :: nat where
  "number_episodes = 1250"

text \<open>
  The collaborators outside the notebook are parameters: the gym environment (\<open>reset\<close>
  gives an observation, \<open>step\<close> an observation, a reward and the \<open>done\<close> flag, each with
  the environment's next state), the random draws consumed by \<open>dist.sample()\<close>, and the
  update of the parameters that \<open>loss.backward()\<close> followed by \<open>optimizer.step()\<close>
  computes from the network and the recorded episode.
\<close>

record 'e environment =
  env_reset :: "'e \<Rightarrow> real list \<times> 'e"
  env_step :: "'e \<Rightarrow> nat \<Rightarrow> (real list \<times> real \<times> bool) \<times> 'e"

text \<open>The calls that leave the trainer, in the order in which they are made.\<close>

datatype event =
    EnvReset
  | EnvStep nat
  | ZeroGrad
  | Backward npfloat
  | OptimizerStep
  | Print nat npfloat

record 'e collector =
  c_env :: 'e
  c_draws :: nat
  c_states :: "real list list"
  c_log_probs :: "real list list"
  c_values :: "real list list"
  c_rewards :: "real list"
  c_trace :: "event list"

text \<open>
  The inner loop \<open>for t in range(1000)\<close>, on the number of iterations left; \<open>break\<close> on
  \<open>done\<close>. An exception of the forward pass or of \<open>log_prob\<close> ends the run. Besides the
  three lists of the source, the collector keeps the observations, which the recorded
  tensors hold in their gradient graph.
\<close>

fun collect :: "'e environment \<Rightarrow> (nat \<Rightarrow> real) \<Rightarrow> net \<Rightarrow> nat \<Rightarrow> real list \<Rightarrow> 'e collector
    \<Rightarrow> error + 'e collector" where
  "collect env rng n 0 state c = Inr c"
| "collect env rng n (Suc k) state c =
     (case forward n state of
        Inl e \<Rightarrow> Inl e
      | Inr (distr, value) \<Rightarrow>
          let action = sample distr (rng (c_draws c)) in
          (case log_prob distr action of
             Inl e \<Rightarrow> Inl e
           | Inr lp \<Rightarrow>
               (case env_step env (c_env c) action of
                  ((state', reward, done), e') \<Rightarrow>
                    let c' = \<lparr>c_env = e', c_draws = Suc (c_draws c),
                              c_states = c_states c @ [state],
                              c_log_probs = c_log_probs c @ [[lp]],
                              c_values = c_values c @ [value],
                              c_rewards = c_rewards c @ [reward],
                              c_trace = c_trace c @ [EnvStep action]\<rparr>
                    in if done then Inr c' else collect env rng n k state' c')))"

text \<open>\<open>deque(maxlen=m).append(x)\<close>: a full deque drops its oldest entry.\<close>

definition deque_append :: "nat \<Rightarrow> 'a list \<Rightarrow> 'a \<Rightarrow> 'a list" where
  "deque_append maxlen d x = (if length d = maxlen then tl d @ [x] else d @ [x])"

text \<open>
  A torch tensor is its entries together with its place in the gradient graph. Of the
  graph only this is kept: through which of the two recorded network outputs, the
  log-probabilities and the value estimates, a tensor is connected to the network.
  \<open>torch.from_numpy\<close> gives a tensor outside the graph, \<open>torch.cat\<close> of recorded outputs a
  tensor connected through them, arithmetic joins the connections of its operands, and
  \<open>detach\<close> keeps the entries and cuts every connection. A \<open>scalar\<close> is a tensor of
  shape \<open>[]\<close>.
\<close>

datatype grad_source = ViaLogProbs | ViaValues

record 'a traced =
  payload :: 'a
  grad_paths :: "grad_source set"

type_synonym tensor = "npfloat list traced"

type_synonym scalar = "npfloat traced"

definition from_numpy :: "npfloat list \<Rightarrow> tensor" where
  "from_numpy arr = \<lparr>payload = arr, grad_paths = {}\<rparr>"

definition torch_cat :: "grad_source \<Rightarrow> real list list \<Rightarrow> tensor" where
  "torch_cat src ts = \<lparr>payload = map Fin (concat ts), grad_paths = {src}\<rparr>"

definition tensor_sub :: "tensor \<Rightarrow> tensor \<Rightarrow> tensor" where
  "tensor_sub a b =
     \<lparr>payload = map2 fsub (payload a) (payload b), grad_paths = grad_paths a \<union> grad_paths b\<rparr>"

definition tensor_mul :: "tensor \<Rightarrow> tensor \<Rightarrow> tensor" where
  "tensor_mul a b =
     \<lparr>payload = map2 fmul (payload a) (payload b), grad_paths = grad_paths a \<union> grad_paths b\<rparr>"

definition tensor_abs_pow2 :: "tensor \<Rightarrow> tensor" where
  "tensor_abs_pow2 a =
     \<lparr>payload = map (\<lambda>d. fmul (fabs d) (fabs d)) (payload a), grad_paths = grad_paths a\<rparr>"

definition torch_sum :: "tensor \<Rightarrow> scalar" where
  "torch_sum a = \<lparr>payload = foldl fadd (Fin 0) (payload a), grad_paths = grad_paths a\<rparr>"

definition detach :: "tensor \<Rightarrow> tensor" where
  "detach a = a\<lparr>grad_paths := {}\<rparr>"

definition scalar_scale :: "real \<Rightarrow> scalar \<Rightarrow> scalar" where
  "scalar_scale k a = \<lparr>payload = fmul (Fin k) (payload a), grad_paths = grad_paths a\<rparr>"

definition scalar_add :: "scalar \<Rightarrow> scalar \<Rightarrow> scalar" where
  "scalar_add a b =
     \<lparr>payload = fadd (payload a) (payload b), grad_paths = grad_paths a \<union> grad_paths b\<rparr>"

record losses =
  policy_loss :: scalar
  value_function_loss :: scalar
  loss :: scalar

text \<open>
  Steps 2 to 4 of the episode: the returns as a tensor, \<open>delta\<close>, its detached copy, and
  the three losses.
\<close>

definition compute_losses :: "'e collector \<Rightarrow> losses" where
  "compute_losses c =
     (let returns = from_numpy (compute_returns (c_rewards c) hyper_gamma);
          vals = torch_cat ViaValues (c_values c);
          lps = torch_cat ViaLogProbs (c_log_probs c);
          delta = tensor_sub returns vals;
          delta = detach delta;
          pl = torch_sum (tensor_mul lps delta);
          vl = scalar_scale (1 / 2) (torch_sum (tensor_abs_pow2 (tensor_sub returns vals)))
      in \<lparr>policy_loss = pl, value_function_loss = vl, loss = scalar_add pl vl\<rparr>)"

record ('e, 'o) trainer =
  t_net :: net
  t_opt :: 'o
  t_env :: 'e
  t_draws :: nat
  scores :: "real list"
  scores_deque :: "real list"
  trace :: "event list"

text \<open>
  The optimizer writes new values into the parameter tensors; their shapes stay.
\<close>

definition set_parameters :: "linear \<Rightarrow> linear \<Rightarrow> linear" where
  "set_parameters l new = l\<lparr>weight := weight new, bias := bias new\<rparr>"

definition update_net :: "net \<Rightarrow> net \<Rightarrow> net" where
  "update_net n new =
     \<lparr>fc_shared = set_parameters (fc_shared n) (fc_shared new),
      fc_policy = set_parameters (fc_policy n) (fc_policy new),
      fc_value_function = set_parameters (fc_value_function n) (fc_value_function new)\<rparr>"

text \<open>One episode: the body of \<open>for episode in range(1, number_episodes+1)\<close>.\<close>

definition collect_trajectory :: "'e environment \<Rightarrow> (nat \<Rightarrow> real) \<Rightarrow> ('e, 'o) trainer
    \<Rightarrow> error + 'e collector" where
  "collect_trajectory env rng t =
     (case env_reset env (t_env t) of
        (state, e0) \<Rightarrow>
          collect env rng (t_net t) 1000 state
            \<lparr>c_env = e0, c_draws = t_draws t, c_states = [],
             c_log_probs = [], c_values = [], c_rewards = [],
             c_trace = trace t @ [EnvReset]\<rparr>)"

definition episode_step :: "'e environment \<Rightarrow> (nat \<Rightarrow> real) \<Rightarrow> ('o \<Rightarrow> net \<Rightarrow> 'e collector \<Rightarrow> 'o \<times> net)
    \<Rightarrow> nat \<Rightarrow> ('e, 'o) trainer \<Rightarrow> error + ('e, 'o) trainer" where
  "episode_step env rng optimizer episode t =
     (case collect_trajectory env rng t of
        Inl e \<Rightarrow> Inl e
      | Inr c \<Rightarrow>
          let scores' = scores t @ [sum_list (c_rewards c)];
              deque' = deque_append 50 (scores_deque t) (sum_list (c_rewards c));
              l = compute_losses c;
              (opt', new) = optimizer (t_opt t) (t_net t) c;
              tr = c_trace c @ [ZeroGrad, Backward (payload (loss l)), OptimizerStep];
              tr' = (if episode mod 50 = 0
                     then tr @ [Print episode (np_mean (np_array deque'))] else tr)
          in Inr \<lparr>t_net = update_net (t_net t) new, t_opt = opt', t_env = c_env c,
                  t_draws = c_draws c, scores = scores', scores_deque = deque', trace = tr'\<rparr>)"

fun run_episodes :: "'e environment \<Rightarrow> (nat \<Rightarrow> real) \<Rightarrow> ('o \<Rightarrow> net \<Rightarrow> 'e collector \<Rightarrow> 'o \<times> net)
    \<Rightarrow> nat list \<Rightarrow> ('e, 'o) trainer \<Rightarrow> error + ('e, 'o) trainer" where
  "run_episodes env rng optimizer [] t = Inr t"
| "run_episodes env rng optimizer (episode # episodes) t =
     (case episode_step env rng optimizer episode t of
        Inl e \<Rightarrow> Inl e
      | Inr t' \<Rightarrow> run_episodes env rng optimizer episodes t')"

text \<open>
  \<open>reinforce_learned_baseline\<close>: what the seed fixes (the initial weights, the random
  draws, the state of the environment, the state of the optimizer) is given explicitly.
\<close>

definition initial_trainer :: "layer_init \<times> layer_init \<times> layer_init \<Rightarrow> 'e \<Rightarrow> 'o \<Rightarrow> ('e, 'o) trainer" where
  "initial_trainer init e0 o0 =
     \<lparr>t_net = Net_default init, t_opt = o0, t_env = e0, t_draws = 0,
      scores = [], scores_deque = [], trace = []\<rparr>"

definition train :: "'e environment \<Rightarrow> (nat \<Rightarrow> real) \<Rightarrow> ('o \<Rightarrow> net \<Rightarrow> 'e collector \<Rightarrow> 'o \<times> net)
    \<Rightarrow> nat \<Rightarrow> layer_init \<times> layer_init \<times> layer_init \<Rightarrow> 'e \<Rightarrow> 'o \<Rightarrow> error + ('e, 'o) trainer" where
  "train env rng optimizer n init e0 o0 =
     run_episodes env rng optimizer [1..<n + 1] (initial_trainer init e0 o0)"

definition reinforce_learned_baseline :: "'e environment \<Rightarrow> (nat \<Rightarrow> real)
    \<Rightarrow> ('o \<Rightarrow> net \<Rightarrow> 'e collector \<Rightarrow> 'o \<times> net)
    \<Rightarrow> layer_init \<times> layer_init \<times> layer_init \<Rightarrow> 'e \<Rightarrow> 'o \<Rightarrow> error + (net \<times> real list)" where
  "reinforce_learned_baseline env rng optimizer init e0 o0 =
     (case train env rng optimizer number_episodes init e0 o0 of
        Inl e \<Rightarrow> Inl e
      | Inr t \<Rightarrow> Inr (t_net t, scores t))"

text \<open>The environment keeps its contract: every observation has 8 entries.\<close>

definition observations_ok :: "'e environment \<Rightarrow> bool" where
  "observations_ok env \<longleftrightarrow>
     (\<forall>e. length (fst (env_reset env e)) = 8) \<and>
     (\<forall>e a. length (fst (fst (env_step env e a))) = 8)"

text \<open>The shapes of the layers of \<open>Net()\<close>; the optimizer keeps them.\<close>

definition default_shape :: "net \<Rightarrow> bool" where
  "default_shape n \<longleftrightarrow>
     in_features (fc_shared n) = 8 \<and> out_features (fc_shared n) = 128 \<and>
     in_features (fc_policy n) = 128 \<and> out_features (fc_policy n) = 4 \<and>
     in_features (fc_value_function n) = 128 \<and> out_features (fc_value_function n) = 1"

fun is_backward :: "event \<Rightarrow> bool" where
  "is_backward (Backward l) = True"
| "is_backward _ = False"

fun is_print :: "event \<Rightarrow> bool" where
  "is_print (Print episode avg) = True"
| "is_print _ = False"

fun is_env_step :: "event \<Rightarrow> bool" where
  "is_env_step (EnvStep a) = True"
| "is_env_step _ = False"

section \<open>Statistics of real sequences\<close>

text \<open>
  The arithmetic mean and the population standard deviation on the reals, and the last
  \<open>m\<close> entries of a list: the notions in which the results below are stated.
\<close>

definition mean :: "real list \<Rightarrow> real" where
  "mean xs = sum_list xs / real (length xs)"

definition stddev :: "real list \<Rightarrow> real" where
  "stddev xs = sqrt (mean (map (\<lambda>v. (v - mean xs)\<^sup>2) xs))"

definition centre :: "real list \<Rightarrow> real list" where
  "centre xs = map (\<lambda>v. v - mean xs) xs"

definition last_n :: "nat \<Rightarrow> 'a list \<Rightarrow> 'a list" where
  "last_n m xs = drop (length xs - m) xs"


section \<open>The environment on its own\<close>

text \<open>
  What the environment answers to a given list of actions, taken one after the other from
  a given state: for each action the result of \<open>step\<close> (observation, reward and \<open>done\<close>
  flag, with the next state). It serves to say which rewards and observations an episode
  of the trainer must have recorded.
\<close>

fun env_run :: "'e environment \<Rightarrow> 'e \<Rightarrow> nat list \<Rightarrow> ((real list \<times> real \<times> bool) \<times> 'e) list" where
  "env_run env e [] = []"
| "env_run env e (a # acts) = env_step env e a # env_run env (snd (env_step env e a)) acts"

definition step_obs :: "(real list \<times> real \<times> bool) \<times> 'e \<Rightarrow> real list" where
  "step_obs r = fst (fst r)"

definition step_reward :: "(real list \<times> real \<times> bool) \<times> 'e \<Rightarrow> real" where
  "step_reward r = fst (snd (fst r))"

definition step_done :: "(real list \<times> real \<times> bool) \<times> 'e \<Rightarrow> bool" where
  "step_done r = snd (snd (fst r))"

section \<open>compute\_returns on a store\<close>

text \<open>
  The same function with its objects in a store, to see what it writes: Python lists and
  numpy arrays live at references, \<open>returns = []\<close> and \<open>np.array(returns)\<close> allocate,
  \<open>returns.insert(0, R)\<close>, \<open>returns -= ...\<close> and \<open>returns /= ...\<close> write in place at
  the reference that the name \<open>returns\<close> holds at that moment.
\<close>

datatype pyobj = PyList "real list" | NdArray "npfloat list"

record heap =
  objects :: "nat \<Rightarrow> pyobj option"
  next_ref :: nat

definition alloc :: "heap \<Rightarrow> pyobj \<Rightarrow> nat \<times> heap" where
  "alloc h obj =
     (next_ref h, \<lparr>objects = (objects h)(next_ref h \<mapsto> obj), next_ref = Suc (next_ref h)\<rparr>)"

definition store :: "heap \<Rightarrow> nat \<Rightarrow> pyobj \<Rightarrow> heap" where
  "store h r obj = h\<lparr>objects := (objects h)(r \<mapsto> obj)\<rparr>"

definition heap_returns_step :: "nat \<Rightarrow> nat \<Rightarrow> real \<Rightarrow> nat \<Rightarrow> real \<times> heap \<Rightarrow> error + (real \<times> heap)" where
  "heap_returns_step rewards_ref returns_ref gamma step st =
     (case st of (R, h) \<Rightarrow>
        (case objects h rewards_ref of
           Some (PyList rewards) \<Rightarrow>
             if step < length rewards then
               (let R' = rewards ! step + gamma * R in
                (case objects h returns_ref of
                   Some (PyList returns) \<Rightarrow> Inr (R', store h returns_ref (PyList (R' # returns)))
                 | _ \<Rightarrow> Inl TypeError))
             else Inl IndexOutOfRange
         | _ \<Rightarrow> Inl TypeError))"

fun heap_returns_loop :: "nat \<Rightarrow> nat \<Rightarrow> real \<Rightarrow> nat list \<Rightarrow> real \<times> heap \<Rightarrow> error + (real \<times> heap)" where
  "heap_returns_loop rewards_ref returns_ref gamma [] st = Inr st"
| "heap_returns_loop rewards_ref returns_ref gamma (step # steps) st =
     (case heap_returns_step rewards_ref returns_ref gamma step st of
        Inl e \<Rightarrow> Inl e
      | Inr st' \<Rightarrow> heap_returns_loop rewards_ref returns_ref gamma steps st')"

definition inplace :: "heap \<Rightarrow> nat \<Rightarrow> (npfloat list \<Rightarrow> npfloat list) \<Rightarrow> error + heap" where
  "inplace h r f =
     (case objects h r of
        Some (NdArray arr) \<Rightarrow> Inr (store h r (NdArray (f arr)))
      | _ \<Rightarrow> Inl TypeError)"

definition compute_returns_heap :: "heap \<Rightarrow> nat \<Rightarrow> real \<Rightarrow> error + (nat \<times> heap)" where
  "compute_returns_heap h rewards_ref gamma =
     (case objects h rewards_ref of
        Some (PyList rewards) \<Rightarrow>
          (case alloc h (PyList []) of
             (returns_ref, h1) \<Rightarrow>
               (case heap_returns_loop rewards_ref returns_ref gamma (rev [0..<length rewards]) (0, h1) of
                  Inl e \<Rightarrow> Inl e
                | Inr (R, h2) \<Rightarrow>
                    (case objects h2 returns_ref of
                       Some (PyList returns) \<Rightarrow>
                         (case alloc h2 (NdArray (np_array returns)) of
                            (arr_ref, h3) \<Rightarrow>
                              (case inplace h3 arr_ref (\<lambda>arr. map (\<lambda>v. fsub v (np_mean arr)) arr) of
                                 Inl e \<Rightarrow> Inl e
                               | Inr h4 \<Rightarrow>
                                   (case inplace h4 arr_ref (\<lambda>arr. map (\<lambda>v. fdiv v (np_std arr)) arr) of
                                      Inl e \<Rightarrow> Inl e
                                    | Inr h5 \<Rightarrow> Inr (arr_ref, h5))))
                     | _ \<Rightarrow> Inl TypeError)))
      | _ \<Rightarrow> Inl TypeError)"

section \<open>A concrete instance\<close>

text \<open>
  Initial weights that are all zero, an environment on a one-point state space whose
  observations are zero vectors and whose episodes end after the first step with reward
  \<open>1\<close>, an optimizer that leaves the parameters as they are, and a store that holds one
  list of rewards.
\<close>

definition zero_init :: "layer_init \<times> layer_init \<times> layer_init" where
  "zero_init = ((\<lambda>j i. 0, \<lambda>j. 0), (\<lambda>j i. 0, \<lambda>j. 0), (\<lambda>j i. 0, \<lambda>j. 0))"

definition one_step_env :: "unit environment" where
  "one_step_env =
     \<lparr>env_reset = (\<lambda>e. (replicate 8 0, e)), env_step = (\<lambda>e a. ((replicate 8 0, 1, True), e))\<rparr>"

definition keep_optimizer :: "unit \<Rightarrow> net \<Rightarrow> unit collector \<Rightarrow> unit \<times> net" where
  "keep_optimizer o1 n c = (o1, n)"

text \<open>
  An environment that counts its steps, whose episodes have the two rewards \<open>1\<close> and
  \<open>2\<close>, and an optimizer that adds \<open>1\<close> to the bias of the value head.
\<close>

definition two_step_env :: "nat environment" where
  "two_step_env =
     \<lparr>env_reset = (\<lambda>e. (replicate 8 0, 0)),
      env_step = (\<lambda>e a. ((replicate 8 0, real (Suc e), 1 \<le> e), Suc e))\<rparr>"

definition shift_optimizer :: "unit \<Rightarrow> net \<Rightarrow> nat collector \<Rightarrow> unit \<times> net" where
  "shift_optimizer o1 n c =
     (o1, n\<lparr>fc_value_function :=
              (fc_value_function n)\<lparr>bias := (\<lambda>j. bias (fc_value_function n) j + 1)\<rparr>\<rparr>)"

definition example_heap :: heap where
  "example_heap = \<lparr>objects = [0 \<mapsto> PyList [1, 2, 3]], next_ref = 1\<rparr>"

section \<open>The discounted returns\<close>

lemma foldr_returns_step:
  assumes "i \<le> n"
  shows "\<exists>R G. foldr (returns_step rewards gamma) [i..<n] (0, []) = (R, G) \<and> length G = n - i \<and>
           R = (if i < n then hd G else 0) \<and>
           (\<forall>j < n - i. G ! j = rewards ! (i + j) + gamma * (if Suc j < n - i then G ! Suc j else 0))"
  using assms
proof (induction i rule: inc_induct)
  case base
  show ?case by simp
next
  case (step k)
  then obtain R G where ih: "foldr (returns_step rewards gamma) [Suc k..<n] (0, []) = (R, G)"
    "length G = n - Suc k" "R = (if Suc k < n then hd G else 0)"
    "\<forall>j < n - Suc k. G ! j = rewards ! (Suc k + j) + gamma * (if Suc j < n - Suc k then G ! Suc j else 0)"
    by blast
  let ?R = "rewards ! k + gamma * R"
  have eq: "foldr (returns_step rewards gamma) [k..<n] (0, []) = (?R, ?R # G)"
    using step.hyps ih(1) by (simp add: upt_conv_Cons returns_step_def Let_def)
  have hdG: "R = (if 0 < n - Suc k then G ! 0 else 0)"
    using ih(2,3) by (cases G) auto
  have "\<forall>j < n - k. (?R # G) ! j = rewards ! (k + j) + gamma * (if Suc j < n - k then (?R # G) ! Suc j else 0)"
  proof (intro allI impI)
    fix j assume j: "j < n - k"
    show "(?R # G) ! j = rewards ! (k + j) + gamma * (if Suc j < n - k then (?R # G) ! Suc j else 0)"
    proof (cases j)
      case 0
      then show ?thesis using hdG step.hyps by auto
    next
      case (Suc j')
      then have "j' < n - Suc k" using j by simp
      then show ?thesis using ih(4) Suc j by auto
    qed
  qed
  then show ?case using eq ih(2) step.hyps by auto
qed

lemma discounted_returns_foldr:
  "discounted_returns rewards gamma = snd (foldr (returns_step rewards gamma) [0..<length rewards] (0, []))"
  by (simp add: discounted_returns_def foldr_conv_fold)

lemma length_discounted_returns: "length (discounted_returns rewards gamma) = length rewards"
  using foldr_returns_step [of 0 "length rewards" rewards gamma]
  by (auto simp: discounted_returns_foldr)

lemma discounted_returns_rec:
  "t < length rewards \<Longrightarrow>
   discounted_returns rewards gamma ! t =
     rewards ! t + gamma * (if Suc t < length rewards then discounted_returns rewards gamma ! Suc t else 0)"
  using foldr_returns_step [of 0 "length rewards" rewards gamma]
  by (auto simp: discounted_returns_foldr)

lemma last_discounted_returns:
  assumes "rewards \<noteq> []"
  shows "last (discounted_returns rewards gamma) = last rewards"
proof -
  let ?G = "discounted_returns rewards gamma"
  let ?n = "length rewards"
  have n: "0 < ?n" using assms by simp
  have len: "length ?G = ?n" by (rule length_discounted_returns)
  have "?G ! (?n - 1) = rewards ! (?n - 1)"
    using discounted_returns_rec [of "?n - 1" rewards gamma] n by simp
  moreover have "?G \<noteq> []" using len n by auto
  ultimately show ?thesis using assms len by (simp add: last_conv_nth)
qed

text \<open>
  Claim C2. The returns before normalisation have the length of the rewards and obey the
  backward recurrence \<open>G_t = r_t + gamma * G_{t+1}\<close>, with \<open>G_T = r_T\<close> at the last
  step; \<open>compute_returns\<close> normalises exactly this sequence. For the rewards
  \<open>[1, 1, 1]\<close> and \<open>gamma = 1\<close> they are \<open>[3, 2, 1]\<close>, and for \<open>[0, 0, 10]\<close> and
  \<open>gamma = 0.5\<close> they are \<open>[2.5, 5, 10]\<close>.
\<close>

theorem discounted_returns_recurrence:
  "length (discounted_returns rewards gamma) = length rewards \<and>
   (\<forall>t < length rewards.
      discounted_returns rewards gamma ! t =
        rewards ! t + gamma * (if Suc t < length rewards
                               then discounted_returns rewards gamma ! Suc t else 0)) \<and>
   (rewards \<noteq> [] \<longrightarrow> last (discounted_returns rewards gamma) = last rewards) \<and>
   compute_returns rewards gamma = normalize_array (np_array (discounted_returns rewards gamma)) \<and>
   discounted_returns [1, 1, 1] 1 = [3, 2, 1] \<and>
   discounted_returns [0, 0, 10] (1 / 2) = [5 / 2, 5, 10]"
proof -
  have "discounted_returns [1, 1, 1] 1 = [3, 2, 1]"
    by (simp add: discounted_returns_def returns_step_def Let_def)
  moreover have "discounted_returns [0, 0, 10] (1 / 2) = [5 / 2, 5, 10]"
    by (simp add: discounted_returns_def returns_step_def Let_def)
  ultimately show ?thesis
    using length_discounted_returns [of rewards gamma] discounted_returns_rec [of _ rewards gamma]
      last_discounted_returns [of rewards gamma]
    by (simp add: compute_returns_def)
qed

theorem discounted_returns_recurrence_witness:
  "(0::nat) < length [1, 2, 3 :: real] \<and> [1, 2, 3 :: real] \<noteq> [] \<and>
   length (discounted_returns [1, 2, 3] (1 / 2)) = 3 \<and>
   discounted_returns [1, 2, 3] (1 / 2) ! 0 = 1 + 1 / 2 * discounted_returns [1, 2, 3] (1 / 2) ! 1 \<and>
   last (discounted_returns [1, 2, 3] (1 / 2)) = 3"
proof -
  have h: "(0::nat) < length [1, 2, 3 :: real]" "[1, 2, 3 :: real] \<noteq> []" by simp_all
  from discounted_returns_recurrence [of "[1, 2, 3]" "1 / 2"]
  have len: "length (discounted_returns [1, 2, 3] (1 / 2)) = length [1, 2, 3 :: real]"
    and r: "\<forall>t < length [1, 2, 3 :: real].
      discounted_returns [1, 2, 3] (1 / 2) ! t =
        [1, 2, 3] ! t + 1 / 2 * (if Suc t < length [1, 2, 3 :: real]
                               then discounted_returns [1, 2, 3] (1 / 2) ! Suc t else 0)"
    and l: "[1, 2, 3 :: real] \<noteq> [] \<longrightarrow> last (discounted_returns [1, 2, 3] (1 / 2)) = last [1, 2, 3]"
    by blast+
  from r h(1) have "discounted_returns [1, 2, 3] (1 / 2) ! 0 =
        [1, 2, 3] ! 0 + 1 / 2 * (if Suc 0 < length [1, 2, 3 :: real]
                               then discounted_returns [1, 2, 3] (1 / 2) ! Suc 0 else 0)"
    by blast
  then show ?thesis using h len l by simp
qed

section \<open>The normalisation\<close>

lemma foldl_fadd_Fin: "foldl fadd (Fin a) (map Fin xs) = Fin (a + sum_list xs)"
  by (induction xs arbitrary: a) (simp_all add: add.assoc)

lemma np_sum_Fin: "np_sum (map Fin xs) = Fin (sum_list xs)"
  by (simp add: np_sum_def foldl_fadd_Fin)

lemma np_mean_Fin: "xs \<noteq> [] \<Longrightarrow> np_mean (map Fin xs) = Fin (mean xs)"
  by (simp add: np_mean_def np_sum_Fin mean_def)

lemma mean_sq_nonneg: "0 \<le> mean (map (\<lambda>v. (v - m)\<^sup>2) xs)"
  by (auto simp: mean_def intro!: divide_nonneg_nonneg sum_list_nonneg)

lemma np_std_Fin: "xs \<noteq> [] \<Longrightarrow> np_std (map Fin xs) = Fin (stddev xs)"
proof -
  assume ne: "xs \<noteq> []"
  have sq: "map (\<lambda>v. fmul v v) (map (\<lambda>v. fabs (fsub v (Fin (mean xs)))) (map Fin xs))
        = map Fin (map (\<lambda>v. (v - mean xs)\<^sup>2) xs)"
    by (simp add: fsub_def power2_eq_square)
  have "np_std (map Fin xs) = fsqrt (np_mean (map Fin (map (\<lambda>v. (v - mean xs)\<^sup>2) xs)))"
    unfolding np_std_def Let_def np_mean_Fin [OF ne] sq ..
  also have "\<dots> = fsqrt (Fin (mean (map (\<lambda>v. (v - mean xs)\<^sup>2) xs)))"
    using ne by (subst np_mean_Fin) simp_all
  also have "\<dots> = Fin (stddev xs)"
    using mean_sq_nonneg [of "mean xs" xs] by (simp add: stddev_def)
  finally show ?thesis .
qed

lemma mean_centred: "xs \<noteq> [] \<Longrightarrow> mean (map (\<lambda>v. v - mean xs) xs) = 0"
  by (simp add: mean_def sum_list_subtractf sum_list_triv)

lemma stddev_zero_iff: "xs \<noteq> [] \<Longrightarrow> stddev xs = 0 \<longleftrightarrow> (\<forall>x\<in>set xs. x = mean xs)"
proof -
  assume ne: "xs \<noteq> []"
  have "stddev xs = 0 \<longleftrightarrow> sum_list (map (\<lambda>v. (v - mean xs)\<^sup>2) xs) = 0"
    using ne by (simp add: stddev_def mean_def)
  also have "\<dots> \<longleftrightarrow> (\<forall>x\<in>set (map (\<lambda>v. (v - mean xs)\<^sup>2) xs). x = 0)"
    by (rule sum_list_nonneg_eq_0_iff) auto
  also have "\<dots> \<longleftrightarrow> (\<forall>x\<in>set xs. x = mean xs)" by auto
  finally show ?thesis .
qed

lemma mean_centre: "xs \<noteq> [] \<Longrightarrow> mean (centre xs) = 0"
  by (simp add: centre_def mean_centred)

lemma stddev_centre_zero_iff:
  "xs \<noteq> [] \<Longrightarrow> stddev (centre xs) = 0 \<longleftrightarrow> (\<forall>x\<in>set xs. x = mean xs)"
proof -
  assume ne: "xs \<noteq> []"
  then have "centre xs \<noteq> []" by (simp add: centre_def)
  then have "stddev (centre xs) = 0 \<longleftrightarrow> (\<forall>x\<in>set (centre xs). x = 0)"
    using mean_centre [OF ne] by (simp add: stddev_zero_iff)
  also have "\<dots> \<longleftrightarrow> (\<forall>x\<in>set xs. x = mean xs)" by (auto simp: centre_def)
  finally show ?thesis .
qed

lemma normalize_Fin:
  assumes "xs \<noteq> []"
  shows "normalize_array (map Fin xs) = map (\<lambda>v. fdiv (Fin v) (Fin (stddev (centre xs)))) (centre xs)"
proof -
  have c: "map (\<lambda>v. fsub v (Fin (mean xs))) (map Fin xs) = map Fin (centre xs)"
    by (simp add: centre_def fsub_def)
  have "centre xs \<noteq> []" using assms by (simp add: centre_def)
  then have s: "np_std (map Fin (centre xs)) = Fin (stddev (centre xs))" by (rule np_std_Fin)
  show ?thesis
    unfolding normalize_array_def Let_def np_mean_Fin [OF assms] c s by (simp add: comp_def)
qed

lemma normalize_regular:
  assumes "xs \<noteq> []" and "stddev (centre xs) \<noteq> 0"
  shows "normalize_array (map Fin xs) = map Fin (map (\<lambda>v. v / stddev (centre xs)) (centre xs))"
  using assms by (simp add: normalize_Fin comp_def)



lemma mean_scaled: "mean (map (\<lambda>v. v / s) ys) = mean ys / s"
proof -
  have "sum_list (map (\<lambda>v. v / s) ys) = sum_list ys / s"
    by (induction ys) (simp_all add: add_divide_distrib)
  then show ?thesis by (simp add: mean_def)
qed

lemma stddev_scaled:
  assumes "ys \<noteq> []" and "mean ys = 0" and "stddev ys \<noteq> 0"
  shows "stddev (map (\<lambda>v. v / stddev ys) ys) = 1"
proof -
  let ?s = "stddev ys"
  let ?q = "mean (map (\<lambda>v. v\<^sup>2) ys)"
  have s2: "?s\<^sup>2 = ?q"
    using mean_sq_nonneg [of 0 ys] assms(2) by (simp add: stddev_def)
  have "map (\<lambda>v. (v - mean (map (\<lambda>v. v / ?s) ys))\<^sup>2) (map (\<lambda>v. v / ?s) ys)
        = map (\<lambda>v. v / ?s\<^sup>2) (map (\<lambda>v. v\<^sup>2) ys)"
    using assms(2) by (simp add: mean_scaled power_divide comp_def)
  then have "stddev (map (\<lambda>v. v / ?s) ys) = sqrt (mean (map (\<lambda>v. v / ?s\<^sup>2) (map (\<lambda>v. v\<^sup>2) ys)))"
    by (simp only: stddev_def)
  also have "\<dots> = sqrt (?q / ?s\<^sup>2)" by (simp only: mean_scaled)
  also have "\<dots> = sqrt 1" using s2 [symmetric] assms(3) by simp
  also have "\<dots> = 1" by simp
  finally show ?thesis .
qed

lemma compute_returns_regular:
  assumes "x \<in> set (discounted_returns rewards gamma)"
    and "y \<in> set (discounted_returns rewards gamma)" and "x \<noteq> y"
  shows "\<exists>ys. compute_returns rewards gamma = map Fin ys \<and> length ys = length rewards \<and>
           np_mean (map Fin ys) = Fin 0 \<and> np_std (map Fin ys) = Fin 1"
proof -
  let ?G = "discounted_returns rewards gamma"
  let ?c = "centre ?G"
  let ?ys = "map (\<lambda>v. v / stddev ?c) ?c"
  have ne: "?G \<noteq> []" using assms(1) by auto
  have cne: "?c \<noteq> []" using ne by (simp add: centre_def)
  have "\<not> (\<forall>v\<in>set ?G. v = mean ?G)" using assms by metis
  then have s: "stddev ?c \<noteq> 0" using ne by (simp add: stddev_centre_zero_iff)
  have eq: "compute_returns rewards gamma = map Fin ?ys"
    unfolding compute_returns_def np_array_def by (rule normalize_regular [OF ne s])
  have len: "length ?ys = length rewards" by (simp add: centre_def length_discounted_returns)
  have yne: "?ys \<noteq> []" using cne by simp
  have m: "np_mean (map Fin ?ys) = Fin 0"
    using mean_centre [OF ne] by (simp only: np_mean_Fin [OF yne] mean_scaled) simp
  have sd: "np_std (map Fin ?ys) = Fin 1"
    using stddev_scaled [OF cne mean_centre [OF ne] s] by (simp only: np_std_Fin [OF yne])
  show ?thesis using eq len m sd by blast
qed

text \<open>
  The normalisation has no guard against a standard deviation of zero: two rewards \<open>0\<close>
  have the returns \<open>[0, 0]\<close>, and the division \<open>0 / 0\<close> makes both entries \<open>nan\<close>.
\<close>

lemma compute_returns_zero_rewards:
  "compute_returns [0, 0] (99 / 100) = [NaN, NaN] \<and>
   \<not> (np_mean (compute_returns [0, 0] (99 / 100)) = Fin 0 \<and>
      np_std (compute_returns [0, 0] (99 / 100)) = Fin 1)"
  by (simp add: compute_returns_def normalize_array_def np_array_def np_mean_def np_std_def np_sum_def
      fsub_def discounted_returns_def returns_step_def)

text \<open>
  Claim C4, as stated, fails: for the single reward \<open>5\<close> the centred array is \<open>[0]\<close>, its
  standard deviation is \<open>0\<close>, and the function divides by it; the result is \<open>[nan]\<close>.
\<close>

theorem compute_returns_single_counterexample:
  "discounted_returns [5] (99 / 100) = [5] \<and>
   np_mean (np_array [5]) = Fin 5 \<and>
   np_std [fsub (Fin 5) (Fin 5)] = Fin 0 \<and>
   compute_returns [5] (99 / 100) = [fdiv (fsub (Fin 5) (Fin 5)) (Fin 0)] \<and>
   compute_returns [5] (99 / 100) = [NaN]"
  by (simp add: compute_returns_def normalize_array_def np_array_def np_mean_def np_std_def np_sum_def
      fsub_def discounted_returns_def returns_step_def)

text \<open>
  Claim C4, amended. For a single-element reward sequence \<open>compute_returns\<close> has no
  guard: the standard deviation of the centred array is \<open>0\<close>, the function divides \<open>0\<close>
  by it, and it returns the one-element array \<open>[nan]\<close>, whatever the reward and the
  discount factor are.
\<close>

theorem compute_returns_single_nan:
  "discounted_returns [r] gamma = [r] \<and>
   np_std [fsub (Fin r) (np_mean (np_array [r]))] = Fin 0 \<and>
   compute_returns [r] gamma = [fdiv (fsub (Fin r) (np_mean (np_array [r]))) (Fin 0)] \<and>
   compute_returns [r] gamma = [NaN]"
  by (simp add: compute_returns_def normalize_array_def np_array_def np_mean_def np_std_def np_sum_def
      fsub_def discounted_returns_def returns_step_def)

section \<open>The forward pass\<close>

lemma linear_apply_Inr:
  "length x = in_features l \<Longrightarrow>
   \<exists>y. linear_apply l x = Inr y \<and> length y = out_features l"
  by (simp add: linear_apply_def)

lemma linear_apply_Inl:
  "length x \<noteq> in_features l \<Longrightarrow> linear_apply l x = Inl ShapeMismatch"
  by (simp add: linear_apply_def)

lemma length_relu: "length (relu x) = length x"
  by (simp add: relu_def)

lemma logsumexp_single: "logsumexp [v] = v"
  by (simp add: logsumexp_def)

lemma Categorical_single: "Categorical [v] = \<lparr>logits = [0]\<rparr>"
  by (simp add: Categorical_def logsumexp_single)

lemma num_events_Categorical: "num_events (Categorical l) = length l"
  by (simp add: num_events_def Categorical_def)

lemma sample_single: "num_events d = 1 \<Longrightarrow> sample d u = 0"
  by (simp add: sample_def)

lemma log_prob_single: "log_prob (Categorical [v]) 0 = Inr 0"
  by (simp add: log_prob_def num_events_def Categorical_single)

lemma forward_value_head:
  assumes "length x = in_features (fc_shared n)"
    and "out_features (fc_shared n) = in_features (fc_policy n)"
    and "out_features (fc_shared n) = in_features (fc_value_function n)"
  shows "\<exists>h pl value. linear_apply (fc_shared n) x = Inr h \<and>
           linear_apply (fc_policy n) (relu h) = Inr pl \<and>
           length pl = out_features (fc_policy n) \<and>
           length value = out_features (fc_value_function n) \<and>
           forward n x = Inr (Categorical value, value)"
proof -
  obtain h where h: "linear_apply (fc_shared n) x = Inr h" "length h = out_features (fc_shared n)"
    using linear_apply_Inr [OF assms(1)] by blast
  obtain pl where pl: "linear_apply (fc_policy n) (relu h) = Inr pl" "length pl = out_features (fc_policy n)"
    using linear_apply_Inr [of "relu h" "fc_policy n"] h(2) assms(2) by (auto simp: length_relu)
  obtain v where v: "linear_apply (fc_value_function n) (relu h) = Inr v"
      "length v = out_features (fc_value_function n)"
    using linear_apply_Inr [of "relu h" "fc_value_function n"] h(2) assms(3) by (auto simp: length_relu)
  have "forward n x = Inr (Categorical v, v)"
    by (simp add: forward_def h(1) pl(1) v(1))
  then show ?thesis using h pl v by blast
qed

lemma forward_default_shape:
  assumes "default_shape n" and "length x = 8"
  shows "\<exists>v. forward n x = Inr (Categorical [v], [v])"
proof -
  obtain val where v: "length val = out_features (fc_value_function n)"
      "forward n x = Inr (Categorical val, val)"
    using forward_value_head [of x n] assms by (auto simp: default_shape_def)
  then have "length val = 1" using assms(1) by (simp add: default_shape_def)
  then obtain a where "val = [a]" by (cases val) auto
  then show ?thesis using v(2) by auto
qed

lemma default_shape_Net_default: "default_shape (Net_default init)"
  by (cases init) (auto simp: default_shape_def Net_default_def Net_init_def Linear_def)

lemma default_shape_update_net: "default_shape n \<Longrightarrow> default_shape (update_net n new)"
  by (simp add: default_shape_def update_net_def set_parameters_def)

lemma forward_hidden_mismatch:
  assumes "h_size \<noteq> 128"
  shows "forward (Net_init s_size h_size a_size init) x = Inl ShapeMismatch"
proof (cases "length x = s_size")
  case False
  then show ?thesis
    by (cases init) (simp add: forward_def Net_init_def Linear_def linear_apply_def)
next
  case True
  then show ?thesis using assms
    by (cases init) (simp add: forward_def Net_init_def Linear_def linear_apply_def relu_def Let_def)
qed

section \<open>Episodes and the training run\<close>

lemma collect_default:
  assumes "default_shape n" and "observations_ok env"
  shows "length state = 8 \<Longrightarrow> 0 < k \<Longrightarrow>
    \<exists>c' m vs rs. collect env rng n k state c = Inr c' \<and> 0 < m \<and> m \<le> k \<and>
      length vs = m \<and> (\<forall>v\<in>set vs. length v = 1) \<and> length rs = m \<and>
      c_trace c' = c_trace c @ replicate m (EnvStep 0) \<and>
      c_log_probs c' = c_log_probs c @ replicate m [0] \<and>
      c_values c' = c_values c @ vs \<and>
      c_rewards c' = c_rewards c @ rs \<and>
      c_draws c' = c_draws c + m"
proof (induction k arbitrary: state c)
  case 0
  then show ?case by simp
next
  case (Suc k)
  obtain v where fw: "forward n state = Inr (Categorical [v], [v])"
    using forward_default_shape [OF assms(1) Suc.prems(1)] by blast
  have sm: "sample (Categorical [v]) (rng (c_draws c)) = 0"
    by (simp add: sample_single num_events_Categorical)
  obtain state' reward fin e' where st: "env_step env (c_env c) 0 = ((state', reward, fin), e')"
    by (metis prod_cases3 surj_pair)
  define c1 where "c1 = \<lparr>c_env = e', c_draws = Suc (c_draws c),
                              c_states = c_states c @ [state],
                              c_log_probs = c_log_probs c @ [[0]],
                              c_values = c_values c @ [[v]],
                              c_rewards = c_rewards c @ [reward],
                              c_trace = c_trace c @ [EnvStep 0]\<rparr>"
  have step: "collect env rng n (Suc k) state c = (if fin then Inr c1 else collect env rng n k state' c1)"
    by (simp add: fw sm log_prob_single st c1_def)
  have "length (fst (fst (env_step env (c_env c) 0))) = 8"
    using assms(2) unfolding observations_ok_def by blast
  then have len': "length state' = 8" by (simp add: st)
  show ?case
  proof (cases "fin \<or> k = 0")
    case True
    then have "collect env rng n (Suc k) state c = Inr c1" using step by auto
    then show ?thesis
      by (intro exI [of _ c1] exI [of _ 1] exI [of _ "[[v]]"] exI [of _ "[reward]"])
         (simp add: c1_def)
  next
    case False
    then have k: "0 < k" and nd: "\<not> fin" by auto
    obtain c' m vs rs where ih: "collect env rng n k state' c1 = Inr c'" "0 < m" "m \<le> k"
      "length vs = m" "\<forall>v\<in>set vs. length v = 1" "length rs = m"
      "c_trace c' = c_trace c1 @ replicate m (EnvStep 0)"
      "c_log_probs c' = c_log_probs c1 @ replicate m [0]"
      "c_values c' = c_values c1 @ vs"
      "c_rewards c' = c_rewards c1 @ rs"
      "c_draws c' = c_draws c1 + m"
      using Suc.IH [OF len' k, of c1] by blast
    have "collect env rng n (Suc k) state c = Inr c'" using step nd ih(1) by simp
    then show ?thesis using ih
      by (intro exI [of _ c'] exI [of _ "Suc m"] exI [of _ "[v] # vs"] exI [of _ "reward # rs"])
         (simp add: c1_def replicate_append_same [symmetric] del: replicate_append_same)
  qed
qed

lemma collect_trajectory_default:
  assumes "default_shape (t_net t)" and "observations_ok env"
  shows "\<exists>c m vs rs. collect_trajectory env rng t = Inr c \<and> 0 < m \<and> m \<le> 1000 \<and>
      length vs = m \<and> (\<forall>v\<in>set vs. length v = 1) \<and> length rs = m \<and>
      c_trace c = trace t @ EnvReset # replicate m (EnvStep 0) \<and>
      c_log_probs c = replicate m [0] \<and> c_values c = vs \<and> c_rewards c = rs"
proof -
  obtain state e0 where r: "env_reset env (t_env t) = (state, e0)" by (cases "env_reset env (t_env t)")
  have "length (fst (env_reset env (t_env t))) = 8"
    using assms(2) unfolding observations_ok_def by blast
  then have len: "length state = 8" by (simp add: r)
  let ?c0 = "\<lparr>c_env = e0, c_draws = t_draws t, c_states = [],
             c_log_probs = [], c_values = [], c_rewards = [],
             c_trace = trace t @ [EnvReset]\<rparr>"
  have k: "(0::nat) < 1000" by simp
  obtain c' m vs rs where c': "collect env rng (t_net t) 1000 state ?c0 = Inr c'" "0 < m" "m \<le> 1000"
      "length vs = m" "\<forall>v\<in>set vs. length v = 1" "length rs = m"
      "c_trace c' = c_trace ?c0 @ replicate m (EnvStep 0)"
      "c_log_probs c' = c_log_probs ?c0 @ replicate m [0]"
      "c_values c' = c_values ?c0 @ vs"
      "c_rewards c' = c_rewards ?c0 @ rs"
    using collect_default [OF assms len k, where rng = rng and c = ?c0] by blast
  have "collect_trajectory env rng t = Inr c'" using c'(1) by (simp add: collect_trajectory_def r)
  moreover have "c_trace c' = trace t @ EnvReset # replicate m (EnvStep 0)" using c'(7) by simp
  moreover have "c_log_probs c' = replicate m [0]" using c'(8) by simp
  moreover have "c_values c' = vs" using c'(9) by simp
  moreover have "c_rewards c' = rs" using c'(10) by simp
  ultimately show ?thesis using c'(2-6) by blast
qed

lemma episode_step_Inr:
  assumes "collect_trajectory env rng t = Inr c"
  shows "\<exists>t'. episode_step env rng optimizer episode t = Inr t' \<and>
      t_net t' = update_net (t_net t) (snd (optimizer (t_opt t) (t_net t) c)) \<and>
      scores t' = scores t @ [sum_list (c_rewards c)] \<and>
      scores_deque t' = deque_append 50 (scores_deque t) (sum_list (c_rewards c)) \<and>
      trace t' = c_trace c @ [ZeroGrad, Backward (payload (loss (compute_losses c))), OptimizerStep] @
        (if episode mod 50 = 0 then [Print episode (np_mean (np_array (scores_deque t')))] else [])"
  by (simp add: episode_step_def assms Let_def split: prod.splits)

lemma deque_append_last_n:
  assumes "d = last_n 50 xs"
  shows "deque_append 50 d x = last_n 50 (xs @ [x])"
proof (cases "length xs < 50")
  case True
  then show ?thesis using assms by (simp add: deque_append_def last_n_def)
next
  case False
  then have "length d = 50" using assms by (simp add: last_n_def)
  moreover have "tl d = drop (Suc (length xs - 50)) xs"
    using assms by (simp add: last_n_def drop_Suc tl_drop)
  moreover have "Suc (length xs) - 50 = Suc (length xs - 50)" using False by simp
  ultimately show ?thesis using False by (simp add: deque_append_def last_n_def)
qed

lemma run_episodes_append:
  "run_episodes env rng optimizer (xs @ ys) t =
     (case run_episodes env rng optimizer xs t of
        Inl e \<Rightarrow> Inl e
      | Inr t' \<Rightarrow> run_episodes env rng optimizer ys t')"
  by (induction xs arbitrary: t) (simp_all split: sum.splits)

lemma train_Suc:
  "train env rng optimizer (Suc k) init e0 o0 =
     (case train env rng optimizer k init e0 o0 of
        Inl e \<Rightarrow> Inl e
      | Inr t \<Rightarrow> episode_step env rng optimizer (Suc k) t)"
proof -
  have "[1..<Suc k + 1] = [1..<k + 1] @ [Suc k]" by simp
  then show ?thesis
    unfolding train_def by (simp only: run_episodes_append) (simp split: sum.splits)
qed

lemma train_invariant:
  assumes "observations_ok env"
  shows "\<exists>t. train env rng optimizer k init e0 o0 = Inr t \<and> default_shape (t_net t) \<and>
      length (scores t) = k \<and> scores_deque t = last_n 50 (scores t) \<and>
      count_list (trace t) OptimizerStep = k \<and> count_list (trace t) ZeroGrad = k \<and>
      count_list (trace t) EnvReset = k \<and> length (filter is_backward (trace t)) = k \<and>
      (\<forall>a. EnvStep a \<in> set (trace t) \<longrightarrow> a = 0)"
proof (induction k)
  case 0
  show ?case
    by (simp add: train_def initial_trainer_def default_shape_Net_default last_n_def)
next
  case (Suc k)
  then obtain t where t: "train env rng optimizer k init e0 o0 = Inr t" "default_shape (t_net t)"
      "length (scores t) = k" "scores_deque t = last_n 50 (scores t)"
      "count_list (trace t) OptimizerStep = k" "count_list (trace t) ZeroGrad = k"
      "count_list (trace t) EnvReset = k" "length (filter is_backward (trace t)) = k"
      "\<forall>a. EnvStep a \<in> set (trace t) \<longrightarrow> a = 0"
    by blast
  obtain c m where c: "collect_trajectory env rng t = Inr c"
      "c_trace c = trace t @ EnvReset # replicate m (EnvStep 0)"
    using collect_trajectory_default [OF t(2) assms, of rng] by blast
  obtain t' where t': "episode_step env rng optimizer (Suc k) t = Inr t'"
      "t_net t' = update_net (t_net t) (snd (optimizer (t_opt t) (t_net t) c))"
      "scores t' = scores t @ [sum_list (c_rewards c)]"
      "scores_deque t' = deque_append 50 (scores_deque t) (sum_list (c_rewards c))"
      "trace t' = c_trace c @ [ZeroGrad, Backward (payload (loss (compute_losses c))), OptimizerStep] @
        (if Suc k mod 50 = 0 then [Print (Suc k) (np_mean (np_array (scores_deque t')))] else [])"
    using episode_step_Inr [OF c(1), of optimizer "Suc k"] by blast
  have tr: "train env rng optimizer (Suc k) init e0 o0 = Inr t'"
    by (simp add: train_Suc t(1) t'(1))
  have sh: "default_shape (t_net t')" using t(2) t'(2) by (simp add: default_shape_update_net)
  have dq: "scores_deque t' = last_n 50 (scores t')"
    using deque_append_last_n [OF t(4)] t'(3,4) by simp
  have cnt: "count_list (replicate m (EnvStep 0)) OptimizerStep = 0"
    "count_list (replicate m (EnvStep 0)) ZeroGrad = 0"
    "count_list (replicate m (EnvStep 0)) EnvReset = 0"
    "filter is_backward (replicate m (EnvStep 0)) = []"
    by (induction m) simp_all
  have trc: "trace t' = trace t @ EnvReset # replicate m (EnvStep 0) @
        [ZeroGrad, Backward (payload (loss (compute_losses c))), OptimizerStep] @
        (if Suc k mod 50 = 0 then [Print (Suc k) (np_mean (np_array (scores_deque t')))] else [])"
    using t'(5) c(2) by simp
  have "count_list (trace t') OptimizerStep = Suc k" "count_list (trace t') ZeroGrad = Suc k"
    "count_list (trace t') EnvReset = Suc k" "length (filter is_backward (trace t')) = Suc k"
    "\<forall>a. EnvStep a \<in> set (trace t') \<longrightarrow> a = 0"
    using t(5-9) cnt by (auto simp: trc)
  then show ?case using tr sh dq t(3) t'(3) by auto
qed



lemma map2_nth:
  "length xs = length ys \<Longrightarrow> map2 f xs ys = map (\<lambda>i. f (xs ! i) (ys ! i)) [0..<length xs]"
  by (rule nth_equalityI) simp_all

lemma fmul_fabs: "fmul (fabs d) (fabs d) = fmul d d"
  by (cases d) simp_all


section \<open>The distribution of the forward pass\<close>

text \<open>
  Claim C1, on the code. For every observation of 8 entries, the forward pass of \<open>Net()\<close>
  applies the policy head, which gives 4 logits, and then builds the distribution from the
  one-element output of the value head: the distribution returned has one category, not
  the 4 of the action space, and it is not the distribution of the policy logits. The
  second component is the value estimate, a tensor of one element.
\<close>

theorem forward_distribution_from_value:
  assumes "length x = 8"
  shows "\<exists>h policy_logits val d.
      linear_apply (fc_shared (Net_default init)) x = Inr h \<and>
      linear_apply (fc_policy (Net_default init)) (relu h) = Inr policy_logits \<and>
      length policy_logits = 4 \<and>
      forward (Net_default init) x = Inr (d, val) \<and>
      d = Categorical val \<and> length val = 1 \<and> num_events d = 1 \<and>
      d \<noteq> Categorical policy_logits"
proof -
  let ?n = "Net_default init"
  have sh: "default_shape ?n" by (rule default_shape_Net_default)
  obtain h pl val where f: "linear_apply (fc_shared ?n) x = Inr h"
      "linear_apply (fc_policy ?n) (relu h) = Inr pl" "length pl = out_features (fc_policy ?n)"
      "length val = out_features (fc_value_function ?n)"
      "forward ?n x = Inr (Categorical val, val)"
    using forward_value_head [of x ?n] sh assms by (auto simp: default_shape_def)
  have l4: "length pl = 4" and l1: "length val = 1"
    using f(3,4) sh by (simp_all add: default_shape_def)
  have "num_events (Categorical val) \<noteq> num_events (Categorical pl)"
    using l4 l1 by (simp add: num_events_Categorical)
  then have "Categorical val \<noteq> Categorical pl" by auto
  then show ?thesis using f l4 l1 by (auto simp: num_events_Categorical)
qed

theorem forward_distribution_from_value_witness:
  "length (replicate 8 (0::real)) = 8 \<and>
   (\<exists>h policy_logits val d.
      linear_apply (fc_shared (Net_default zero_init)) (replicate 8 0) = Inr h \<and>
      linear_apply (fc_policy (Net_default zero_init)) (relu h) = Inr policy_logits \<and>
      length policy_logits = 4 \<and>
      forward (Net_default zero_init) (replicate 8 0) = Inr (d, val) \<and>
      d = Categorical val \<and> length val = 1 \<and> num_events d = 1 \<and>
      d \<noteq> Categorical policy_logits)"
proof -
  have h: "length (replicate 8 (0::real)) = 8" by simp
  show ?thesis using h forward_distribution_from_value [OF h, of zero_init] by blast
qed

section \<open>The policy head and the loss\<close>

lemma forward_policy_weights:
  "forward (n\<lparr>fc_policy := (fc_policy n)\<lparr>weight := w, bias := b\<rparr>\<rparr>) x = forward n x"
proof -
  let ?p = "(fc_policy n)\<lparr>weight := w, bias := b\<rparr>"
  show ?thesis
  proof (cases "linear_apply (fc_shared n) x")
    case (Inl e)
    then show ?thesis by (simp add: forward_def)
  next
    case (Inr h)
    show ?thesis
    proof (cases "length (relu h) = in_features (fc_policy n)")
      case True
      then obtain pl pl' where "linear_apply (fc_policy n) (relu h) = Inr pl"
          "linear_apply ?p (relu h) = Inr pl'"
        by (simp add: linear_apply_def)
      then show ?thesis by (simp add: forward_def Inr Let_def)
    next
      case False
      then have "linear_apply (fc_policy n) (relu h) = Inl ShapeMismatch"
          "linear_apply ?p (relu h) = Inl ShapeMismatch"
        by (simp_all add: linear_apply_def)
      then show ?thesis by (simp add: forward_def Inr Let_def)
    qed
  qed
qed

lemma collect_policy_weights:
  "collect env rng (n\<lparr>fc_policy := (fc_policy n)\<lparr>weight := w, bias := b\<rparr>\<rparr>) k state c
   = collect env rng n k state c"
  by (induction k arbitrary: state c) (simp_all only: collect.simps forward_policy_weights)

text \<open>
  Claim C5, on the code. Replacing the weights and the bias of the policy head by any
  others changes neither the forward pass, nor the trajectory collected in an episode, nor
  the policy loss, the value loss and the composite loss computed from it: the losses are
  constant in the parameters of the policy head, so differentiating the composite loss
  gives that head no gradient.
\<close>

theorem losses_independent_of_policy_head:
  "forward (n\<lparr>fc_policy := (fc_policy n)\<lparr>weight := w, bias := b\<rparr>\<rparr>) x = forward n x \<and>
   collect_trajectory env rng
     (t\<lparr>t_net := (t_net t)\<lparr>fc_policy := (fc_policy (t_net t))\<lparr>weight := w, bias := b\<rparr>\<rparr>\<rparr>)
     = collect_trajectory env rng t \<and>
   map_sum id compute_losses (collect_trajectory env rng
     (t\<lparr>t_net := (t_net t)\<lparr>fc_policy := (fc_policy (t_net t))\<lparr>weight := w, bias := b\<rparr>\<rparr>\<rparr>))
     = map_sum id compute_losses (collect_trajectory env rng t)"
proof -
  have "collect_trajectory env rng
     (t\<lparr>t_net := (t_net t)\<lparr>fc_policy := (fc_policy (t_net t))\<lparr>weight := w, bias := b\<rparr>\<rparr>\<rparr>)
     = collect_trajectory env rng t"
    by (simp add: collect_trajectory_def collect_policy_weights split: prod.splits)
  then show ?thesis by (simp add: forward_policy_weights)
qed

section \<open>The width of the value head\<close>

text \<open>
  Claim C10. The value head of \<open>Net(s_size, h_size, a_size)\<close> has 128 inputs whatever
  \<open>h_size\<close> is. With \<open>h_size\<close> other than 128 every forward pass fails with a shape
  mismatch, and on an observation of \<open>s_size\<close> entries it is the value head that rejects
  the \<open>h_size\<close> wide output of the shared layer. With \<open>h_size = 128\<close> the forward pass
  succeeds on every observation of \<open>s_size\<close> entries.
\<close>

theorem value_head_width:
  "in_features (fc_value_function (Net_init s_size h_size a_size init)) = 128 \<and>
   (h_size \<noteq> 128 \<longrightarrow> forward (Net_init s_size h_size a_size init) x = Inl ShapeMismatch) \<and>
   (h_size \<noteq> 128 \<and> length x = s_size \<longrightarrow>
      (\<exists>h. linear_apply (fc_shared (Net_init s_size h_size a_size init)) x = Inr h \<and>
           length h = h_size \<and>
           linear_apply (fc_value_function (Net_init s_size h_size a_size init)) (relu h)
             = Inl ShapeMismatch)) \<and>
   (length x = s_size \<longrightarrow> (\<exists>d v. forward (Net_init s_size 128 a_size init) x = Inr (d, v)))"
proof -
  let ?n = "Net_init s_size h_size a_size init"
  have a: "in_features (fc_value_function ?n) = 128"
    by (cases init) (simp add: Net_init_def Linear_def)
  have b: "h_size \<noteq> 128 \<longrightarrow> forward ?n x = Inl ShapeMismatch"
    using forward_hidden_mismatch by blast
  have c: "h_size \<noteq> 128 \<and> length x = s_size \<longrightarrow>
      (\<exists>h. linear_apply (fc_shared ?n) x = Inr h \<and> length h = h_size \<and>
           linear_apply (fc_value_function ?n) (relu h) = Inl ShapeMismatch)"
    by (cases init) (simp add: Net_init_def Linear_def linear_apply_def relu_def)
  have d: "length x = s_size \<longrightarrow> (\<exists>d v. forward (Net_init s_size 128 a_size init) x = Inr (d, v))"
  proof
    assume "length x = s_size"
    then show "\<exists>d v. forward (Net_init s_size 128 a_size init) x = Inr (d, v)"
      using forward_value_head [of x "Net_init s_size 128 a_size init"]
      by (cases init) (auto simp: Net_init_def Linear_def)
  qed
  show ?thesis using a b c d by blast
qed

theorem value_head_width_witness:
  "(64::nat) \<noteq> 128 \<and> length (replicate 8 (0::real)) = 8 \<and>
   forward (Net_init 8 64 4 zero_init) (replicate 8 0) = Inl ShapeMismatch \<and>
   (\<exists>h. linear_apply (fc_shared (Net_init 8 64 4 zero_init)) (replicate 8 0) = Inr h \<and>
        length h = 64 \<and>
        linear_apply (fc_value_function (Net_init 8 64 4 zero_init)) (relu h) = Inl ShapeMismatch) \<and>
   (\<exists>d v. forward (Net_init 8 128 4 zero_init) (replicate 8 0) = Inr (d, v))"
proof -
  have h: "(64::nat) \<noteq> 128" "length (replicate 8 (0::real)) = 8" by simp_all
  show ?thesis using h value_head_width [of 8 64 4 zero_init "replicate 8 0"] by blast
qed

section \<open>The update of an episode\<close>

lemma np_mean_np_array: "xs \<noteq> [] \<Longrightarrow> np_mean (np_array xs) = Fin (mean xs)"
  by (simp add: np_array_def np_mean_Fin)

lemma episode_context:
  assumes "observations_ok env"
  shows "\<exists>t c t' m. train env rng optimizer k init e0 o0 = Inr t \<and>
      collect_trajectory env rng t = Inr c \<and>
      train env rng optimizer (Suc k) init e0 o0 = Inr t' \<and>
      default_shape (t_net t) \<and> length (scores t) = k \<and>
      scores_deque t = last_n 50 (scores t) \<and>
      0 < m \<and> m \<le> 1000 \<and> length (c_values c) = m \<and> (\<forall>v\<in>set (c_values c). length v = 1) \<and>
      length (c_rewards c) = m \<and>
      c_trace c = trace t @ EnvReset # replicate m (EnvStep 0) \<and>
      c_log_probs c = replicate m [0] \<and>
      scores t' = scores t @ [sum_list (c_rewards c)] \<and>
      scores_deque t' = last_n 50 (scores t') \<and>
      trace t' = c_trace c @ [ZeroGrad, Backward (payload (loss (compute_losses c))), OptimizerStep] @
        (if Suc k mod 50 = 0 then [Print (Suc k) (np_mean (np_array (scores_deque t')))] else [])"
proof -
  obtain t where t: "train env rng optimizer k init e0 o0 = Inr t" "default_shape (t_net t)"
      "length (scores t) = k" "scores_deque t = last_n 50 (scores t)"
    using train_invariant [OF assms, of rng optimizer k init e0 o0] by blast
  obtain c m where c: "collect_trajectory env rng t = Inr c" "0 < m" "m \<le> 1000"
      "length (c_values c) = m" "\<forall>v\<in>set (c_values c). length v = 1" "length (c_rewards c) = m"
      "c_trace c = trace t @ EnvReset # replicate m (EnvStep 0)"
      "c_log_probs c = replicate m [0]"
    using collect_trajectory_default [OF t(2) assms, of rng] by blast
  obtain t' where t': "episode_step env rng optimizer (Suc k) t = Inr t'"
      "scores t' = scores t @ [sum_list (c_rewards c)]"
      "scores_deque t' = deque_append 50 (scores_deque t) (sum_list (c_rewards c))"
      "trace t' = c_trace c @ [ZeroGrad, Backward (payload (loss (compute_losses c))), OptimizerStep] @
        (if Suc k mod 50 = 0 then [Print (Suc k) (np_mean (np_array (scores_deque t')))] else [])"
    using episode_step_Inr [OF c(1), of optimizer "Suc k"] by blast
  have tr: "train env rng optimizer (Suc k) init e0 o0 = Inr t'"
    by (simp add: train_Suc t(1) t'(1))
  have dq: "scores_deque t' = last_n 50 (scores t')"
    using deque_append_last_n [OF t(4)] t'(2,3) by simp
  show ?thesis using t c t'(2,4) tr dq by blast
qed

lemma last_n_min: "last_n (min m (length xs)) xs = last_n m xs"
  by (simp add: last_n_def min_def)

lemma filter_is_print_steps: "filter is_print (replicate m (EnvStep a)) = []"
  by (induction m) simp_all

lemma length_env_run: "length (env_run env e acts) = length acts"
  by (induction acts arbitrary: e) simp_all

lemma collect_run:
  assumes "default_shape n" and "observations_ok env"
  shows "length state = 8 \<Longrightarrow> 0 < k \<Longrightarrow>
    \<exists>c' m vs. collect env rng n k state c = Inr c' \<and> 0 < m \<and> m \<le> k \<and> length vs = m \<and>
      c_trace c' = c_trace c @ replicate m (EnvStep 0) \<and>
      c_rewards c' = c_rewards c @ map step_reward (env_run env (c_env c) (replicate m 0)) \<and>
      c_states c' = c_states c @ take m (state # map step_obs (env_run env (c_env c) (replicate m 0))) \<and>
      c_values c' = c_values c @ vs \<and>
      (\<forall>i<m. forward n (take m (state # map step_obs (env_run env (c_env c) (replicate m 0))) ! i)
                = Inr (Categorical (vs ! i), vs ! i)) \<and>
      c_log_probs c' = c_log_probs c @ replicate m [0] \<and>
      c_env c' = snd (last (env_run env (c_env c) (replicate m 0))) \<and>
      c_draws c' = c_draws c + m \<and>
      (\<forall>i<m - 1. \<not> step_done (env_run env (c_env c) (replicate m 0) ! i)) \<and>
      (m < k \<longrightarrow> step_done (env_run env (c_env c) (replicate m 0) ! (m - 1)))"
proof (induction k arbitrary: state c)
  case 0
  then show ?case by simp
next
  case (Suc k)
  obtain v where fw: "forward n state = Inr (Categorical [v], [v])"
    using forward_default_shape [OF assms(1) Suc.prems(1)] by blast
  have sm: "sample (Categorical [v]) (rng (c_draws c)) = 0"
    by (simp add: sample_single num_events_Categorical)
  let ?r = "env_step env (c_env c) 0"
  obtain state' reward fin e' where st: "?r = ((state', reward, fin), e')"
    by (metis prod_cases3 surj_pair)
  define c1 where "c1 = \<lparr>c_env = e', c_draws = Suc (c_draws c),
                              c_states = c_states c @ [state],
                              c_log_probs = c_log_probs c @ [[0]],
                              c_values = c_values c @ [[v]],
                              c_rewards = c_rewards c @ [reward],
                              c_trace = c_trace c @ [EnvStep 0]\<rparr>"
  have step: "collect env rng n (Suc k) state c = (if fin then Inr c1 else collect env rng n k state' c1)"
    by (simp add: fw sm log_prob_single st c1_def)
  have "length (fst (fst (env_step env (c_env c) 0))) = 8"
    using assms(2) unfolding observations_ok_def by blast
  then have len': "length state' = 8" by (simp add: st)
  have acc: "step_reward ?r = reward" "step_obs ?r = state'" "step_done ?r = fin" "snd ?r = e'"
    by (simp_all add: st step_reward_def step_obs_def step_done_def)
  show ?case
  proof (cases "fin \<or> k = 0")
    case True
    then have "collect env rng n (Suc k) state c = Inr c1" using step by auto
    moreover have "1 < Suc k \<longrightarrow> step_done (env_run env (c_env c) (replicate 1 0) ! (1 - 1))"
      using True by (auto simp: acc)
    ultimately show ?thesis
      by (intro exI [of _ c1] exI [of _ 1] exI [of _ "[[v]]"])
         (simp add: c1_def acc fw)
  next
    case False
    then have k: "0 < k" and nd: "\<not> fin" by auto
    let ?outs = "\<lambda>m. env_run env e' (replicate m 0)"
    obtain c' m vs where ih: "collect env rng n k state' c1 = Inr c'" "0 < m" "m \<le> k"
      "length vs = m"
      "c_trace c' = c_trace c1 @ replicate m (EnvStep 0)"
      "c_rewards c' = c_rewards c1 @ map step_reward (?outs m)"
      "c_states c' = c_states c1 @ take m (state' # map step_obs (?outs m))"
      "c_values c' = c_values c1 @ vs"
      "\<forall>i<m. forward n (take m (state' # map step_obs (?outs m)) ! i) = Inr (Categorical (vs ! i), vs ! i)"
      "c_log_probs c' = c_log_probs c1 @ replicate m [0]"
      "c_env c' = snd (last (?outs m))"
      "c_draws c' = c_draws c1 + m"
      "\<forall>i<m - 1. \<not> step_done (?outs m ! i)"
      "m < k \<longrightarrow> step_done (?outs m ! (m - 1))"
      using Suc.IH [OF len' k, of c1] unfolding c1_def collector.simps by blast
    have run: "env_run env (c_env c) (replicate (Suc m) 0) = ?r # ?outs m"
      by (simp add: acc)
    have ne: "?outs m \<noteq> []" using ih(2) length_env_run [of env e' "replicate m 0"] by auto
    let ?states = "take (Suc m) (state # map step_obs (env_run env (c_env c) (replicate (Suc m) 0)))"
    have states: "?states = state # take m (state' # map step_obs (?outs m))"
      by (simp add: run acc)
    have a: "collect env rng n (Suc k) state c = Inr c'" using step nd ih(1) by simp
    have b: "c_trace c' = c_trace c @ replicate (Suc m) (EnvStep 0)"
      using ih(5) by (simp add: c1_def replicate_append_same [symmetric] del: replicate_append_same)
    have c: "c_rewards c' = c_rewards c @ map step_reward (env_run env (c_env c) (replicate (Suc m) 0))"
      using ih(6) by (simp add: run acc c1_def)
    have d: "c_states c' = c_states c @ ?states"
      using ih(7) by (simp only: states) (simp add: c1_def)
    have e: "c_values c' = c_values c @ ([v] # vs)" using ih(8) by (simp add: c1_def)
    have f: "\<forall>i<Suc m. forward n (?states ! i) = Inr (Categorical (([v] # vs) ! i), ([v] # vs) ! i)"
    proof (intro allI impI)
      fix i assume "i < Suc m"
      then show "forward n (?states ! i) = Inr (Categorical (([v] # vs) ! i), ([v] # vs) ! i)"
        unfolding states using ih(9) fw by (cases i) auto
    qed
    have g: "c_log_probs c' = c_log_probs c @ replicate (Suc m) [0]"
      using ih(10) by (simp add: c1_def replicate_append_same [symmetric] del: replicate_append_same)
    have h: "c_env c' = snd (last (env_run env (c_env c) (replicate (Suc m) 0)))"
      using ih(11) ne by (simp only: run) simp
    have i: "c_draws c' = c_draws c + Suc m" using ih(12) by (simp add: c1_def)
    have j: "\<forall>i<Suc m - 1. \<not> step_done (env_run env (c_env c) (replicate (Suc m) 0) ! i)"
    proof (intro allI impI)
      fix i assume "i < Suc m - 1"
      then show "\<not> step_done (env_run env (c_env c) (replicate (Suc m) 0) ! i)"
        unfolding run using ih(13) nd acc(3) by (cases i) auto
    qed
    have l: "Suc m < Suc k \<longrightarrow> step_done (env_run env (c_env c) (replicate (Suc m) 0) ! (Suc m - 1))"
      unfolding run using ih(14) ih(2) by (cases m) auto
    have len: "length ([v] # vs) = Suc m" using ih(4) by simp
    show ?thesis
      using a b c d e f g h i j l len ih(3)
      by (intro exI [of _ c'] exI [of _ "Suc m"] exI [of _ "[v] # vs"]) blast
  qed
qed

lemma collect_trajectory_run:
  assumes "default_shape (t_net t)" and "observations_ok env"
  shows "\<exists>c m. collect_trajectory env rng t = Inr c \<and> 0 < m \<and> m \<le> 1000 \<and>
      length (c_values c) = m \<and>
      c_trace c = trace t @ EnvReset # replicate m (EnvStep 0) \<and>
      c_rewards c = map step_reward (env_run env (snd (env_reset env (t_env t))) (replicate m 0)) \<and>
      c_states c = take m (fst (env_reset env (t_env t)) #
                     map step_obs (env_run env (snd (env_reset env (t_env t))) (replicate m 0))) \<and>
      (\<forall>i<m. forward (t_net t) (c_states c ! i) = Inr (Categorical (c_values c ! i), c_values c ! i)) \<and>
      c_log_probs c = replicate m [0] \<and>
      c_env c = snd (last (env_run env (snd (env_reset env (t_env t))) (replicate m 0))) \<and>
      c_draws c = t_draws t + m \<and>
      (\<forall>i<m - 1. \<not> step_done (env_run env (snd (env_reset env (t_env t))) (replicate m 0) ! i)) \<and>
      (m < 1000 \<longrightarrow>
         step_done (env_run env (snd (env_reset env (t_env t))) (replicate m 0) ! (m - 1)))"
proof -
  obtain state e0 where r: "env_reset env (t_env t) = (state, e0)" by (cases "env_reset env (t_env t)")
  have "length (fst (env_reset env (t_env t))) = 8"
    using assms(2) unfolding observations_ok_def by blast
  then have len: "length state = 8" by (simp add: r)
  let ?c0 = "\<lparr>c_env = e0, c_draws = t_draws t, c_states = [],
             c_log_probs = [], c_values = [], c_rewards = [],
             c_trace = trace t @ [EnvReset]\<rparr>"
  let ?outs = "\<lambda>m. env_run env e0 (replicate m 0)"
  have k: "(0::nat) < 1000" by simp
  obtain c' m vs where c': "collect env rng (t_net t) 1000 state ?c0 = Inr c'" "0 < m" "m \<le> 1000"
      "length vs = m"
      "c_trace c' = c_trace ?c0 @ replicate m (EnvStep 0)"
      "c_rewards c' = c_rewards ?c0 @ map step_reward (env_run env (c_env ?c0) (replicate m 0))"
      "c_states c' = c_states ?c0 @ take m (state # map step_obs (env_run env (c_env ?c0) (replicate m 0)))"
      "c_values c' = c_values ?c0 @ vs"
      "\<forall>i<m. forward (t_net t) (take m (state # map step_obs (env_run env (c_env ?c0) (replicate m 0))) ! i)
                = Inr (Categorical (vs ! i), vs ! i)"
      "c_log_probs c' = c_log_probs ?c0 @ replicate m [0]"
      "c_env c' = snd (last (env_run env (c_env ?c0) (replicate m 0)))"
      "c_draws c' = c_draws ?c0 + m"
      "\<forall>i<m - 1. \<not> step_done (env_run env (c_env ?c0) (replicate m 0) ! i)"
      "m < 1000 \<longrightarrow> step_done (env_run env (c_env ?c0) (replicate m 0) ! (m - 1))"
    using collect_run [OF assms len k, where rng = rng and c = ?c0] by blast
  have 1: "collect_trajectory env rng t = Inr c'" using c'(1) by (simp add: collect_trajectory_def r)
  have 2: "length (c_values c') = m" using c'(4,8) by simp
  have 3: "c_trace c' = trace t @ EnvReset # replicate m (EnvStep 0)" using c'(5) by simp
  have 4: "c_rewards c' = map step_reward (?outs m)" using c'(6) by simp
  have 5: "c_states c' = take m (state # map step_obs (?outs m))" using c'(7) by simp
  have 6: "\<forall>i<m. forward (t_net t) (c_states c' ! i) = Inr (Categorical (c_values c' ! i), c_values c' ! i)"
    using c'(8,9) 5 by simp
  have 7: "c_log_probs c' = replicate m [0]" using c'(10) by simp
  have 8: "c_env c' = snd (last (?outs m))" using c'(11) by simp
  have 9: "c_draws c' = t_draws t + m" using c'(12) by simp
  have 10: "\<forall>i<m - 1. \<not> step_done (?outs m ! i)" using c'(13) by simp
  have 11: "m < 1000 \<longrightarrow> step_done (?outs m ! (m - 1))" using c'(14) by simp
  show ?thesis
    unfolding r fst_conv snd_conv
    using 1 2 3 4 5 6 7 8 9 10 11 c'(2,3) by blast
qed

lemma episode_step_fields:
  assumes "collect_trajectory env rng t = Inr c"
  shows "\<exists>t'. episode_step env rng optimizer episode t = Inr t' \<and>
      t_net t' = update_net (t_net t) (snd (optimizer (t_opt t) (t_net t) c)) \<and>
      t_opt t' = fst (optimizer (t_opt t) (t_net t) c) \<and>
      t_env t' = c_env c \<and> t_draws t' = c_draws c"
  by (simp add: episode_step_def assms Let_def split: prod.splits)













lemma episode_run:
  assumes "observations_ok env"
  shows "\<exists>t c t' m. train env rng optimizer k init e0 o0 = Inr t \<and>
      collect_trajectory env rng t = Inr c \<and>
      train env rng optimizer (Suc k) init e0 o0 = Inr t' \<and>
      default_shape (t_net t) \<and> length (scores t) = k \<and>
      0 < m \<and> m \<le> 1000 \<and> length (c_values c) = m \<and>
      (\<forall>v\<in>set (c_values c). length v = 1) \<and>
      c_trace c = trace t @ EnvReset # replicate m (EnvStep 0) \<and>
      c_rewards c = map step_reward (env_run env (snd (env_reset env (t_env t))) (replicate m 0)) \<and>
      c_states c = take m (fst (env_reset env (t_env t)) #
                     map step_obs (env_run env (snd (env_reset env (t_env t))) (replicate m 0))) \<and>
      (\<forall>i<m. forward (t_net t) (c_states c ! i) = Inr (Categorical (c_values c ! i), c_values c ! i)) \<and>
      c_log_probs c = replicate m [0] \<and>
      c_env c = snd (last (env_run env (snd (env_reset env (t_env t))) (replicate m 0))) \<and>
      (\<forall>i<m - 1. \<not> step_done (env_run env (snd (env_reset env (t_env t))) (replicate m 0) ! i)) \<and>
      (m < 1000 \<longrightarrow>
         step_done (env_run env (snd (env_reset env (t_env t))) (replicate m 0) ! (m - 1))) \<and>
      t_net t' = update_net (t_net t) (snd (optimizer (t_opt t) (t_net t) c)) \<and>
      t_opt t' = fst (optimizer (t_opt t) (t_net t) c) \<and>
      t_env t' = c_env c \<and>
      scores t' = scores t @ [sum_list (c_rewards c)] \<and>
      scores_deque t' = last_n 50 (scores t') \<and>
      trace t' = c_trace c @ [ZeroGrad, Backward (payload (loss (compute_losses c))), OptimizerStep] @
        (if Suc k mod 50 = 0 then [Print (Suc k) (np_mean (np_array (scores_deque t')))] else [])"
proof -
  obtain t where t: "train env rng optimizer k init e0 o0 = Inr t" "default_shape (t_net t)"
      "length (scores t) = k" "scores_deque t = last_n 50 (scores t)"
    using train_invariant [OF assms, of rng optimizer k init e0 o0] by blast
  let ?outs = "\<lambda>m. env_run env (snd (env_reset env (t_env t))) (replicate m 0)"
  obtain c m where c: "collect_trajectory env rng t = Inr c" "0 < m" "m \<le> 1000"
      "length (c_values c) = m"
      "c_trace c = trace t @ EnvReset # replicate m (EnvStep 0)"
      "c_rewards c = map step_reward (?outs m)"
      "c_states c = take m (fst (env_reset env (t_env t)) # map step_obs (?outs m))"
      "\<forall>i<m. forward (t_net t) (c_states c ! i) = Inr (Categorical (c_values c ! i), c_values c ! i)"
      "c_log_probs c = replicate m [0]"
      "c_env c = snd (last (?outs m))"
      "\<forall>i<m - 1. \<not> step_done (?outs m ! i)"
      "m < 1000 \<longrightarrow> step_done (?outs m ! (m - 1))"
    using collect_trajectory_run [OF t(2) assms, of rng] by blast
  have sg: "\<forall>v\<in>set (c_values c). length v = 1"
    using collect_trajectory_default [OF t(2) assms, of rng] c(1) by auto
  obtain t' where t': "episode_step env rng optimizer (Suc k) t = Inr t'"
      "scores t' = scores t @ [sum_list (c_rewards c)]"
      "scores_deque t' = deque_append 50 (scores_deque t) (sum_list (c_rewards c))"
      "trace t' = c_trace c @ [ZeroGrad, Backward (payload (loss (compute_losses c))), OptimizerStep] @
        (if Suc k mod 50 = 0 then [Print (Suc k) (np_mean (np_array (scores_deque t')))] else [])"
    using episode_step_Inr [OF c(1), of optimizer "Suc k"] by blast
  have f: "t_net t' = update_net (t_net t) (snd (optimizer (t_opt t) (t_net t) c))"
      "t_opt t' = fst (optimizer (t_opt t) (t_net t) c)" "t_env t' = c_env c"
    using episode_step_fields [OF c(1), of optimizer "Suc k"] t'(1) by auto
  have tr: "train env rng optimizer (Suc k) init e0 o0 = Inr t'"
    by (simp add: train_Suc t(1) t'(1))
  have dq: "scores_deque t' = last_n 50 (scores t')"
    using deque_append_last_n [OF t(4)] t'(2,3) by simp
  show ?thesis
    using t(1,2,3) c sg tr f t'(2) dq t'(4)
    by (intro exI [of _ t] exI [of _ c] exI [of _ t'] exI [of _ m]) blast
qed


section \<open>The concrete instances\<close>





lemma observations_ok_two_step_env: "observations_ok two_step_env"
  by (simp add: observations_ok_def two_step_env_def)






lemma env_run_two_step:
  "i < length acts \<Longrightarrow>
   env_run two_step_env e acts ! i = ((replicate 8 0, real (Suc (e + i)), 1 \<le> e + i), Suc (e + i))"
proof (induction acts arbitrary: e i)
  case Nil
  then show ?case by simp
next
  case (Cons a acts)
  show ?case
  proof (cases i)
    case 0
    then show ?thesis by (simp add: two_step_env_def)
  next
    case (Suc j)
    then have "j < length acts" using Cons.prems by simp
    then show ?thesis using Cons.IH [of j "Suc e"] Suc by (simp add: two_step_env_def)
  qed
qed


section \<open>The losses and the update\<close>



section \<open>The score history\<close>

text \<open>
  Claim C7. When the environment keeps its contract, episode \<open>k + 1\<close> takes its actions
  one after the other from the reset state until the first \<open>done\<close> or the 1000th step, the
  rewards it records are those that the environment returns for these actions, and their
  sum is appended to \<open>scores\<close>; the next episode starts from the state the environment is
  left in. The deque holds the last \<open>min(50, k + 1)\<close> scores, and when \<open>k + 1\<close> is a
  multiple of 50 the episode reports the arithmetic mean of these scores (and nothing is
  reported otherwise). The whole run of 1250 episodes returns 1250 scores.
\<close>

theorem rolling_average:
  assumes "observations_ok env"
  shows "\<exists>t c t' acts. train env rng optimizer k init e0 o0 = Inr t \<and>
      collect_trajectory env rng t = Inr c \<and>
      train env rng optimizer (Suc k) init e0 o0 = Inr t' \<and>
      (let outs = env_run env (snd (env_reset env (t_env t))) acts
       in 0 < length acts \<and> length acts \<le> 1000 \<and>
          c_trace c = trace t @ EnvReset # map EnvStep acts \<and>
          (\<forall>i<length acts - 1. \<not> step_done (outs ! i)) \<and>
          (length acts < 1000 \<longrightarrow> step_done (outs ! (length acts - 1))) \<and>
          c_rewards c = map step_reward outs \<and>
          scores t' = scores t @ [sum_list (map step_reward outs)] \<and>
          t_env t' = snd (last outs)) \<and>
      scores t' = scores t @ [sum_list (c_rewards c)] \<and>
      length (scores t') = Suc k \<and>
      scores_deque t' = last_n (min 50 (Suc k)) (scores t') \<and>
      length (scores_deque t') = min 50 (Suc k) \<and>
      filter is_print (trace t') = filter is_print (trace t) @
        (if Suc k mod 50 = 0
         then [Print (Suc k) (Fin (mean (last_n (min 50 (Suc k)) (scores t'))))] else []) \<and>
      (\<exists>n sc. reinforce_learned_baseline env rng optimizer init e0 o0 = Inr (n, sc) \<and>
         length sc = 1250)"
proof -
  obtain tn where tn: "train env rng optimizer number_episodes init e0 o0 = Inr tn"
      "length (scores tn) = number_episodes"
    using train_invariant [OF assms, of rng optimizer number_episodes init e0 o0] by blast
  have whole: "\<exists>n sc. reinforce_learned_baseline env rng optimizer init e0 o0 = Inr (n, sc) \<and>
         length sc = 1250"
    using tn by (simp add: reinforce_learned_baseline_def number_episodes_def)
  obtain t c t' m where tk: "train env rng optimizer k init e0 o0 = Inr t"
      and ct: "collect_trajectory env rng t = Inr c"
      and tk': "train env rng optimizer (Suc k) init e0 o0 = Inr t'"
      and ls: "length (scores t) = k"
      and m: "0 < m" "m \<le> 1000"
      and ctr: "c_trace c = trace t @ EnvReset # replicate m (EnvStep 0)"
      and rw: "c_rewards c = map step_reward (env_run env (snd (env_reset env (t_env t))) (replicate m 0))"
      and cenv: "c_env c = snd (last (env_run env (snd (env_reset env (t_env t))) (replicate m 0)))"
      and nd: "\<forall>i<m - 1. \<not> step_done (env_run env (snd (env_reset env (t_env t))) (replicate m 0) ! i)"
      and dn: "m < 1000 \<longrightarrow>
         step_done (env_run env (snd (env_reset env (t_env t))) (replicate m 0) ! (m - 1))"
      and tenv: "t_env t' = c_env c"
      and sc: "scores t' = scores t @ [sum_list (c_rewards c)]"
      and dq50: "scores_deque t' = last_n 50 (scores t')"
      and trc: "trace t' = c_trace c @ [ZeroGrad, Backward (payload (loss (compute_losses c))), OptimizerStep] @
        (if Suc k mod 50 = 0 then [Print (Suc k) (np_mean (np_array (scores_deque t')))] else [])"
    using episode_run [OF assms, of rng optimizer k init e0 o0] by blast
  let ?acts = "replicate m (0::nat)"
  let ?outs = "env_run env (snd (env_reset env (t_env t))) ?acts"
  have a1: "0 < length ?acts" "length ?acts \<le> 1000" using m by simp_all
  have a2: "c_trace c = trace t @ EnvReset # map EnvStep ?acts" using ctr by simp
  have a3: "\<forall>i<length ?acts - 1. \<not> step_done (?outs ! i)" using nd by simp
  have a4: "length ?acts < 1000 \<longrightarrow> step_done (?outs ! (length ?acts - 1))" using dn by simp
  have a5: "scores t' = scores t @ [sum_list (map step_reward ?outs)]" using sc rw by simp
  have a6: "t_env t' = snd (last ?outs)" using tenv cenv by simp
  have len: "length (scores t') = Suc k" using ls sc by simp
  have dq: "scores_deque t' = last_n (min 50 (Suc k)) (scores t')"
    using last_n_min [of 50 "scores t'"] dq50 len by simp
  have ldq: "length (scores_deque t') = min 50 (Suc k)"
    using dq50 len by (auto simp: last_n_def)
  then have "scores_deque t' \<noteq> []" by auto
  then have avg: "np_mean (np_array (scores_deque t')) = Fin (mean (last_n (min 50 (Suc k)) (scores t')))"
    using dq by (simp add: np_mean_np_array)
  have pr: "filter is_print (trace t') = filter is_print (trace t) @
        (if Suc k mod 50 = 0
         then [Print (Suc k) (Fin (mean (last_n (min 50 (Suc k)) (scores t'))))] else [])"
    by (simp add: trc ctr filter_is_print_steps avg)
  show ?thesis
    apply (rule exI [of _ t], rule exI [of _ c], rule exI [of _ t'], rule exI [of _ ?acts])
    unfolding Let_def
    by (intro conjI tk ct tk' a1 a2 a3 a4 rw a5 a6 sc len dq ldq pr whole)
qed

theorem rolling_average_witness:
  "observations_ok two_step_env \<and>
   (\<exists>t c t' acts. train two_step_env (\<lambda>i. 0) shift_optimizer 49 zero_init 0 () = Inr t \<and>
      collect_trajectory two_step_env (\<lambda>i. 0) t = Inr c \<and>
      train two_step_env (\<lambda>i. 0) shift_optimizer (Suc 49) zero_init 0 () = Inr t' \<and>
      length acts < 1000 \<and>
      step_done (env_run two_step_env (snd (env_reset two_step_env (t_env t))) acts ! (length acts - 1)) \<and>
      Suc 49 mod 50 = 0 \<and>
      c_rewards c = [1, 2] \<and>
      scores t' = scores t @ [3] \<and>
      length (scores t') = 50 \<and>
      filter is_print (trace t') = filter is_print (trace t) @
        [Print 50 (Fin (mean (last_n 50 (scores t'))))])"
proof -
  have h: "observations_ok two_step_env"
    by (simp add: observations_ok_def two_step_env_def)
  obtain t c t' acts where tk: "train two_step_env (\<lambda>i. 0) shift_optimizer 49 zero_init 0 () = Inr t"
    and ct: "collect_trajectory two_step_env (\<lambda>i. 0) t = Inr c"
    and tk': "train two_step_env (\<lambda>i. 0) shift_optimizer (Suc 49) zero_init 0 () = Inr t'"
    and pos: "0 < length acts"
    and nd: "\<forall>i<length acts - 1.
        \<not> step_done (env_run two_step_env (snd (env_reset two_step_env (t_env t))) acts ! i)"
    and dn: "length acts < 1000 \<longrightarrow>
        step_done (env_run two_step_env (snd (env_reset two_step_env (t_env t))) acts ! (length acts - 1))"
    and rw: "c_rewards c = map step_reward (env_run two_step_env (snd (env_reset two_step_env (t_env t))) acts)"
    and sc: "scores t' = scores t @ [sum_list (c_rewards c)]"
    and len: "length (scores t') = Suc 49"
    and pr: "filter is_print (trace t') = filter is_print (trace t) @
        (if Suc 49 mod 50 = 0
         then [Print (Suc 49) (Fin (mean (last_n (min 50 (Suc 49)) (scores t'))))] else [])"
    using rolling_average [OF h, of "\<lambda>i. 0" shift_optimizer 49 zero_init 0 "()"]
    unfolding Let_def by blast
  let ?outs = "env_run two_step_env (snd (env_reset two_step_env (t_env t))) acts"
  have e0: "snd (env_reset two_step_env (t_env t)) = 0" by (simp add: two_step_env_def)
  have dne: "step_done (?outs ! i) = (1 \<le> i)" if "i < length acts" for i
    using env_run_two_step [OF that, of 0] by (simp add: e0 step_done_def)
  have rwd: "step_reward (?outs ! i) = real (Suc i)" if "i < length acts" for i
    using env_run_two_step [OF that, of 0] by (simp add: e0 step_reward_def)
  have le2: "length acts \<le> 2"
  proof (rule ccontr)
    assume "\<not> length acts \<le> 2"
    then have "1 < length acts - 1" "1 < length acts" by simp_all
    then show False using nd dne [of 1] by auto
  qed
  then have lt: "length acts < 1000" by simp
  then have last_done: "step_done (?outs ! (length acts - 1))" using dn by blast
  then have "1 \<le> length acts - 1" using dne [of "length acts - 1"] pos by simp
  then have l2: "length acts = 2" using le2 by simp
  have louts: "length ?outs = 2" using l2 by (simp add: length_env_run)
  have r12: "c_rewards c = [1, 2]"
    unfolding rw
  proof (rule nth_equalityI)
    show "length (map step_reward ?outs) = length [1, 2 :: real]" using louts by simp
  next
    fix i assume "i < length (map step_reward ?outs)"
    then have i: "i < 2" using louts by simp
    then have "i < length acts" using l2 by simp
    then have "step_reward (?outs ! i) = real (Suc i)" by (rule rwd)
    then show "map step_reward ?outs ! i = [1, 2] ! i"
      using i louts by (auto simp: less_2_cases_iff)
  qed
  have s3: "scores t' = scores t @ [3]" using sc r12 by simp
  have m: "Suc 49 mod 50 = (0::nat)" by simp
  have pr': "filter is_print (trace t') = filter is_print (trace t) @
        [Print 50 (Fin (mean (last_n 50 (scores t'))))]"
    using pr by simp
  have len': "length (scores t') = 50" using len by simp
  show ?thesis
    apply (rule conjI [OF h])
    apply (rule exI [of _ t], rule exI [of _ c], rule exI [of _ t'], rule exI [of _ acts])
    by (intro conjI tk ct tk' lt last_done m r12 s3 len' pr')
qed

section \<open>The policy that the code samples from\<close>

lemma probs_Categorical_single: "probs (Categorical [v]) = [1]"
  by (simp add: probs_def Categorical_single)

text \<open>
  Claim C8. When the environment keeps its contract, at every stage of the training run
  the distribution that the network returns for an observation has exactly one category,
  of probability 1: \<open>sample\<close> gives action 0 for every random draw and the log-probability
  of that action is 0. Every action passed to the environment up to and including the
  next episode is 0, and every log-probability recorded in that episode is 0.
\<close>

theorem single_category_policy:
  assumes "observations_ok env"
  shows "\<exists>t c. train env rng optimizer k init e0 o0 = Inr t \<and>
      collect_trajectory env rng t = Inr c \<and>
      (\<forall>x. length x = 8 \<longrightarrow>
         (\<exists>d v. forward (t_net t) x = Inr (d, v) \<and> d = Categorical v \<and> length v = 1 \<and>
            num_events d = 1 \<and> probs d = [1] \<and>
            (\<forall>u. sample d u = 0 \<and> log_prob d (sample d u) = Inr 0))) \<and>
      (\<forall>a. EnvStep a \<in> set (c_trace c) \<longrightarrow> a = 0) \<and>
      c_log_probs c \<noteq> [] \<and> (\<forall>lp\<in>set (c_log_probs c). lp = [0])"
proof -
  obtain t c t' m where e: "train env rng optimizer k init e0 o0 = Inr t"
      "collect_trajectory env rng t = Inr c" "default_shape (t_net t)" "0 < m"
      "c_trace c = trace t @ EnvReset # replicate m (EnvStep 0)"
      "c_log_probs c = replicate m [0]"
    using episode_context [OF assms, of rng optimizer k init e0 o0] by blast
  have old: "\<forall>a. EnvStep a \<in> set (trace t) \<longrightarrow> a = 0"
    using train_invariant [OF assms, of rng optimizer k init e0 o0] e(1) by auto
  have fw: "\<forall>x. length x = 8 \<longrightarrow>
         (\<exists>d v. forward (t_net t) x = Inr (d, v) \<and> d = Categorical v \<and> length v = 1 \<and>
            num_events d = 1 \<and> probs d = [1] \<and>
            (\<forall>u. sample d u = 0 \<and> log_prob d (sample d u) = Inr 0))"
  proof (intro allI impI)
    fix x :: "real list" assume "length x = 8"
    then obtain v where v: "forward (t_net t) x = Inr (Categorical [v], [v])"
      using forward_default_shape [OF e(3)] by blast
    have "num_events (Categorical [v]) = 1" by (simp add: num_events_Categorical)
    then have "\<forall>u. sample (Categorical [v]) u = 0 \<and>
        log_prob (Categorical [v]) (sample (Categorical [v]) u) = Inr 0"
      by (simp add: sample_single log_prob_single)
    then show "\<exists>d v. forward (t_net t) x = Inr (d, v) \<and> d = Categorical v \<and> length v = 1 \<and>
            num_events d = 1 \<and> probs d = [1] \<and>
            (\<forall>u. sample d u = 0 \<and> log_prob d (sample d u) = Inr 0)"
      using v by (intro exI [of _ "Categorical [v]"] exI [of _ "[v]"])
        (simp add: num_events_Categorical probs_Categorical_single log_prob_single)
  qed
  have acts: "\<forall>a. EnvStep a \<in> set (c_trace c) \<longrightarrow> a = 0" using old e(5) by auto
  have lps: "c_log_probs c \<noteq> []" "\<forall>lp\<in>set (c_log_probs c). lp = [0]" using e(4,6) by auto
  show ?thesis using e(1,2) fw acts lps by blast
qed

theorem single_category_policy_witness:
  "observations_ok one_step_env \<and> length (replicate 8 (0::real)) = 8 \<and>
   (\<exists>t c. train one_step_env (\<lambda>i. 0) keep_optimizer 3 zero_init () () = Inr t \<and>
      collect_trajectory one_step_env (\<lambda>i. 0) t = Inr c \<and>
      (\<exists>d v. forward (t_net t) (replicate 8 0) = Inr (d, v) \<and> num_events d = 1 \<and>
         sample d (1 / 2) = 0 \<and> log_prob d (sample d (1 / 2)) = Inr 0) \<and>
      (\<forall>a. EnvStep a \<in> set (c_trace c) \<longrightarrow> a = 0) \<and>
      (\<forall>lp\<in>set (c_log_probs c). lp = [0]))"
proof -
  have h: "observations_ok one_step_env"
    by (simp add: observations_ok_def one_step_env_def)
  have l: "length (replicate 8 (0::real)) = 8" by simp
  obtain t c where tc: "train one_step_env (\<lambda>i. 0) keep_optimizer 3 zero_init () () = Inr t"
      "collect_trajectory one_step_env (\<lambda>i. 0) t = Inr c"
      "\<forall>x. length x = 8 \<longrightarrow>
         (\<exists>d v. forward (t_net t) x = Inr (d, v) \<and> d = Categorical v \<and> length v = 1 \<and>
            num_events d = 1 \<and> probs d = [1] \<and>
            (\<forall>u. sample d u = 0 \<and> log_prob d (sample d u) = Inr 0))"
      "\<forall>a. EnvStep a \<in> set (c_trace c) \<longrightarrow> a = 0"
      "\<forall>lp\<in>set (c_log_probs c). lp = [0]"
    using single_category_policy [OF h, of "\<lambda>i. 0" keep_optimizer 3 zero_init "()" "()"] by blast
  from tc(3) l obtain d v where "forward (t_net t) (replicate 8 0) = Inr (d, v)" "num_events d = 1"
      "\<forall>u. sample d u = 0 \<and> log_prob d (sample d u) = Inr 0"
    by blast
  then have "\<exists>d v. forward (t_net t) (replicate 8 0) = Inr (d, v) \<and> num_events d = 1 \<and>
         sample d (1 / 2) = 0 \<and> log_prob d (sample d (1 / 2)) = Inr 0"
    by blast
  then show ?thesis using h l tc(1,2,4,5) by blast
qed

section \<open>The frame of compute\_returns\<close>

lemma store_store: "store (store h r a) r b = store h r b"
  by (simp add: store_def)

lemma objects_store: "objects (store h r a) p = (if p = r then Some a else objects h p)"
  by (simp add: store_def)

lemma heap_returns_loop_fold:
  assumes "rr \<noteq> rt" and "\<forall>s\<in>set steps. s < length rewards"
  shows "objects h rr = Some (PyList rewards) \<Longrightarrow> objects h rt = Some (PyList acc) \<Longrightarrow>
    heap_returns_loop rr rt gamma steps (R, h) =
      Inr (fst (fold (returns_step rewards gamma) steps (R, acc)),
           store h rt (PyList (snd (fold (returns_step rewards gamma) steps (R, acc)))))"
  using assms(2)
proof (induction steps arbitrary: R h acc)
  case Nil
  then have "store h rt (PyList acc) = h" by (simp add: store_def fun_upd_idem)
  then show ?case by simp
next
  case (Cons s steps)
  let ?R = "rewards ! s + gamma * R"
  let ?h = "store h rt (PyList (?R # acc))"
  have st: "heap_returns_step rr rt gamma s (R, h) = Inr (?R, ?h)"
    using Cons.prems by (simp add: heap_returns_step_def Let_def)
  have a: "objects ?h rr = Some (PyList rewards)" "objects ?h rt = Some (PyList (?R # acc))"
    using Cons.prems(1) assms(1) by (simp_all add: objects_store)
  have b: "\<forall>s\<in>set steps. s < length rewards" using Cons.prems(3) by simp
  have "heap_returns_loop rr rt gamma (s # steps) (R, h) = heap_returns_loop rr rt gamma steps (?R, ?h)"
    by (simp add: st)
  also have "\<dots> = Inr (fst (fold (returns_step rewards gamma) steps (?R, ?R # acc)),
           store ?h rt (PyList (snd (fold (returns_step rewards gamma) steps (?R, ?R # acc)))))"
    by (rule Cons.IH [OF a b])
  finally have X: "heap_returns_loop rr rt gamma (s # steps) (R, h) =
      Inr (fst (fold (returns_step rewards gamma) steps (?R, ?R # acc)),
           store ?h rt (PyList (snd (fold (returns_step rewards gamma) steps (?R, ?R # acc)))))" .
  have F: "fold (returns_step rewards gamma) (s # steps) (R, acc) =
      fold (returns_step rewards gamma) steps (?R, ?R # acc)"
    by (simp add: returns_step_def Let_def)
  show ?case unfolding F X store_store ..
qed

text \<open>
  Claim C9. Called on the reference of a list of rewards, \<open>compute_returns\<close> returns the
  reference of a fresh array that holds the normalised returns, and leaves the list of
  rewards, and every other object that existed before the call, as it was.
\<close>

theorem compute_returns_heap_frame:
  assumes "objects h r = Some (PyList rewards)" and "r < next_ref h"
  shows "\<exists>a h'. compute_returns_heap h r gamma = Inr (a, h') \<and>
      objects h' r = Some (PyList rewards) \<and>
      (\<forall>p. p < next_ref h \<longrightarrow> objects h' p = objects h p) \<and>
      a \<noteq> r \<and> objects h' a = Some (NdArray (compute_returns rewards gamma))"
proof -
  let ?rt = "next_ref h"
  let ?h1 = "\<lparr>objects = (objects h)(?rt \<mapsto> PyList []), next_ref = Suc ?rt\<rparr>"
  let ?G = "discounted_returns rewards gamma"
  let ?h2 = "store ?h1 ?rt (PyList ?G)"
  let ?ar = "Suc ?rt"
  let ?arr = "np_array ?G"
  let ?h3 = "\<lparr>objects = (objects ?h2)(?ar \<mapsto> NdArray ?arr), next_ref = Suc ?ar\<rparr>"
  let ?c = "map (\<lambda>v. fsub v (np_mean ?arr)) ?arr"
  let ?h4 = "store ?h3 ?ar (NdArray ?c)"
  let ?h5 = "store ?h4 ?ar (NdArray (map (\<lambda>v. fdiv v (np_std ?c)) ?c))"
  have ne: "r \<noteq> ?rt" using assms(2) by simp
  have al1: "alloc h (PyList []) = (?rt, ?h1)" by (simp add: alloc_def)
  have o1: "objects ?h1 r = Some (PyList rewards)" "objects ?h1 ?rt = Some (PyList [])"
    using assms(1) ne by simp_all
  have steps: "\<forall>s\<in>set (rev [0..<length rewards]). s < length rewards" by simp
  have loop: "heap_returns_loop r ?rt gamma (rev [0..<length rewards]) (0, ?h1) =
      Inr (fst (fold (returns_step rewards gamma) (rev [0..<length rewards]) (0, [])), ?h2)"
    using heap_returns_loop_fold [OF ne steps o1, of gamma 0]
    by (simp add: discounted_returns_def)
  have o2: "objects ?h2 ?rt = Some (PyList ?G)" by (simp add: objects_store)
  have al2: "alloc ?h2 (NdArray ?arr) = (?ar, ?h3)" by (simp add: alloc_def store_def)
  have ip1: "inplace ?h3 ?ar (\<lambda>arr. map (\<lambda>v. fsub v (np_mean arr)) arr) = Inr ?h4"
    by (simp add: inplace_def)
  have ip2: "inplace ?h4 ?ar (\<lambda>arr. map (\<lambda>v. fdiv v (np_std arr)) arr) = Inr ?h5"
    by (simp add: inplace_def objects_store)
  have res: "compute_returns_heap h r gamma = Inr (?ar, ?h5)"
    unfolding compute_returns_heap_def
    by (simp only: assms(1) option.case pyobj.case al1 prod.case loop sum.case o2 al2 ip1 ip2)
  have fr: "objects ?h5 r = Some (PyList rewards)"
    using assms ne by (simp add: objects_store store_def)
  have fr2: "\<forall>p. p < next_ref h \<longrightarrow> objects ?h5 p = objects h p"
    by (simp add: objects_store store_def)
  have out: "objects ?h5 ?ar = Some (NdArray (compute_returns rewards gamma))"
    by (simp add: objects_store compute_returns_def normalize_array_def Let_def)
  have "?ar \<noteq> r" using assms(2) by simp
  then show ?thesis using res fr fr2 out by blast
qed

theorem compute_returns_heap_frame_witness:
  "objects example_heap 0 = Some (PyList [1, 2, 3]) \<and> 0 < next_ref example_heap \<and>
   (\<exists>a h'. compute_returns_heap example_heap 0 (99 / 100) = Inr (a, h') \<and>
      objects h' 0 = Some (PyList [1, 2, 3]) \<and>
      a \<noteq> 0 \<and> objects h' a = Some (NdArray (compute_returns [1, 2, 3] (99 / 100))))"
proof -
  have h: "objects example_heap 0 = Some (PyList [1, 2, 3])" "0 < next_ref example_heap"
    by (simp_all add: example_heap_def)
  show ?thesis using h compute_returns_heap_frame [OF h, of "99 / 100"] by blast
qed

end
